theory Spec2Isabelle
  imports Complex_Main
begin

section \<open>The F-test helper of the fitting notebook\<close>

text \<open>
  The notebook \<^verbatim>\<open>08_fitting.ipynb\<close> defines one function of its own:
  \<^verbatim>\<open>
  def Ftest(ssr_1, ssr_2, ndof_1, ndof_2, nbins, verbose=False):
      F = ((ssr_1 - ssr_2)/(ndof_2 - ndof_1)) / (ssr_2/(nbins - ndof_2))
      CL = 1. - stats.f.cdf(F, ndof_2 - ndof_1, nbins - ndof_2)
      if verbose: print("CL: %.3f" % CL, ", additional parameter necessary:", "YES" if CL < 0.10 else "NO")
      return CL
  \<close>
  The model below follows it statement by statement, in binary64 arithmetic.
\<close>

subsection \<open>Binary64 values and rounding\<close>

text \<open>
  A binary64 value is a finite number, a negative zero, an infinity or a NaN. \<open>Num r\<close>
  holds a finite value as the real number it is (\<open>Num 0\<close> is the positive zero); the
  values that occur are the representable ones, the results of \<open>round64\<close>.
\<close>

datatype pyfloat = Num real | NegZero | PosInf | NegInf | NaN

definition is_nan :: "pyfloat \<Rightarrow> bool" where
  "is_nan x = (case x of NaN \<Rightarrow> True | _ \<Rightarrow> False)"

definition is_inf :: "pyfloat \<Rightarrow> bool" where
  "is_inf x = (case x of PosInf \<Rightarrow> True | NegInf \<Rightarrow> True | _ \<Rightarrow> False)"

definition is_zero :: "pyfloat \<Rightarrow> bool" where
  "is_zero x = (case x of Num r \<Rightarrow> r = 0 | NegZero \<Rightarrow> True | _ \<Rightarrow> False)"

definition signbit :: "pyfloat \<Rightarrow> bool" where
  "signbit x = (case x of Num r \<Rightarrow> r < 0 | NegZero \<Rightarrow> True | NegInf \<Rightarrow> True | _ \<Rightarrow> False)"

definition fin_val :: "pyfloat \<Rightarrow> real" where
  \<comment> \<open>The number a finite value stands for (both zeros are 0).\<close>
  "fin_val x = (case x of Num r \<Rightarrow> r | _ \<Rightarrow> 0)"

definition zero_of :: "bool \<Rightarrow> pyfloat" where
  "zero_of negative = (if negative then NegZero else Num 0)"

definition inf_of :: "bool \<Rightarrow> pyfloat" where
  "inf_of negative = (if negative then NegInf else PosInf)"

text \<open>
  Rounding to nearest, ties to even. \<open>rne\<close> rounds a real to an integer. \<open>quantum x\<close> is
  the exponent of the last place of the binary64 values around \<open>x\<close>: it is
  \<open>\<lfloor>log\<^sub>2 \<bar>x\<bar>\<rfloor> - 52\<close>, and \<open>- 1074\<close> in the subnormal range; the logarithm is found by
  bisection over the twelve bits of the exponent. \<open>round64 x\<close> is the binary64 value of
  the real \<open>x\<close>: a quotient of at most \<open>2 powi (- 1075)\<close> in size becomes a zero with the
  sign of \<open>x\<close>, and a value that rounds to \<open>2 ^ 1024\<close> or more becomes an infinity.
\<close>

definition rne :: "real \<Rightarrow> int" where
  "rne x =
     (let f = \<lfloor>x\<rfloor>; r = x - of_int f
      in if r < 1 / 2 then f else if 1 / 2 < r then f + 1 else if even f then f else f + 1)"

fun bsearch :: "nat \<Rightarrow> int \<Rightarrow> real \<Rightarrow> int" where
  "bsearch 0 e x = e"
| "bsearch (Suc n) e x = bsearch n (if 2 powi (e + 2 ^ n) \<le> x then e + 2 ^ n else e) x"

definition quantum :: "real \<Rightarrow> int" where
  "quantum x = max (- 1074) (bsearch 12 (- 1074) \<bar>x\<bar> - 52)"

definition round64 :: "real \<Rightarrow> pyfloat" where
  "round64 x =
     (if 2 ^ 1024 \<le> \<bar>x\<bar> then inf_of (x < 0)
      else let q = quantum x; m = rne (\<bar>x\<bar> / 2 powi q)
           in if m = 0 then zero_of (x < 0)
              else if 2 ^ 1024 \<le> of_int m * (2::real) powi q then inf_of (x < 0)
              else Num (sgn x * of_int m * 2 powi q))"

definition mag :: "real \<Rightarrow> real" where
  \<comment> \<open>The size of the rounded value before the overflow test; used in the proofs.\<close>
  "mag x = of_int (rne (\<bar>x\<bar> / 2 powi quantum x)) * 2 powi quantum x"

definition is_double :: "real \<Rightarrow> bool" where
  \<comment> \<open>The real is a finite binary64 value.\<close>
  "is_double r = (round64 r = Num r)"

definition ieee_div :: "pyfloat \<Rightarrow> pyfloat \<Rightarrow> pyfloat" where
  \<comment> \<open>IEEE 754 division, with no trap.\<close>
  "ieee_div x y =
     (if is_nan x \<or> is_nan y then NaN
      else if is_inf x then (if is_inf y then NaN else inf_of (signbit x \<noteq> signbit y))
      else if is_inf y then zero_of (signbit x \<noteq> signbit y)
      else if is_zero y then (if is_zero x then NaN else inf_of (signbit x \<noteq> signbit y))
      else if is_zero x then zero_of (signbit x \<noteq> signbit y)
      else round64 (fin_val x / fin_val y))"

definition ieee_sub :: "pyfloat \<Rightarrow> pyfloat \<Rightarrow> pyfloat" where
  \<comment> \<open>IEEE 754 subtraction: equal finite operands give the positive zero, unless the
      operation is \<open>(-0) - (+0)\<close>.\<close>
  "ieee_sub x y =
     (if is_nan x \<or> is_nan y then NaN
      else if is_inf x then (if is_inf y \<and> signbit x = signbit y then NaN else x)
      else if is_inf y then inf_of (\<not> signbit y)
      else if is_zero x \<and> is_zero y then zero_of (signbit x \<and> \<not> signbit y)
      else round64 (fin_val x - fin_val y))"

definition fl_less :: "pyfloat \<Rightarrow> pyfloat \<Rightarrow> bool" where
  \<comment> \<open>The comparison \<^verbatim>\<open><\<close>: false whenever an operand is a NaN.\<close>
  "fl_less x y =
     (if is_nan x \<or> is_nan y then False
      else if x = PosInf \<or> y = NegInf then False
      else if x = NegInf \<or> y = PosInf then True
      else fin_val x < fin_val y)"

definition fl_le :: "pyfloat \<Rightarrow> pyfloat \<Rightarrow> bool" where
  \<comment> \<open>The comparison \<^verbatim>\<open><=\<close>: false whenever an operand is a NaN.\<close>
  "fl_le x y =
     (if is_nan x \<or> is_nan y then False
      else if x = NegInf \<or> y = PosInf then True
      else if x = PosInf \<or> y = NegInf then False
      else fin_val x \<le> fin_val y)"

subsection \<open>Arithmetic in Python\<close>

text \<open>
  \<^verbatim>\<open>Ftest\<close> is duck-typed, and the two kinds of number it is given behave differently.
  \<^item> With built-in \<^verbatim>\<open>float\<close> residual sums every operation is Python's: a zero divisor
    raises \<^verbatim>\<open>ZeroDivisionError\<close>, also when the divisor is a quotient that underflowed to
    zero; an overflowing result is an infinity and nothing is raised or written.
  \<^item> The notebook itself passes residual sums made by \<^verbatim>\<open>np.sum\<close>, which are
    \<^verbatim>\<open>numpy.float64\<close> scalars: every operation of the first statement then has a
    \<^verbatim>\<open>numpy.float64\<close> operand and follows IEEE 754 with no trap. With numpy's default
    error state the flags division by zero, invalid operation and overflow each issue a
    \<^verbatim>\<open>RuntimeWarning\<close>; underflow is ignored.
  An \<^verbatim>\<open>int\<close> operand of a float division is converted to binary64, rounded to nearest;
  an \<^verbatim>\<open>int\<close> that rounds to \<open>2 ^ 1024\<close> or more raises \<^verbatim>\<open>OverflowError\<close>. (numpy 1
  takes integers beyond 64 bits through Python objects; the theorems about numpy scalars
  bound the counts by \<open>2 ^ 53\<close>.)

  An outcome is the value or the exception of an operation together with the warnings it
  issued; \<open>seq\<close> runs the next operation after a value and stops at an exception.
\<close>

datatype arith = Builtin | Numpy

datatype error = ZeroDivisionError | OverflowError | EvaluatorError

datatype warning = DivideByZero | InvalidValue | Overflow

definition div_flags :: "pyfloat \<Rightarrow> pyfloat \<Rightarrow> warning list" where
  \<comment> \<open>The IEEE flags of a division that numpy reports.\<close>
  "div_flags x y =
     (if is_nan x \<or> is_nan y then []
      else if (is_zero x \<and> is_zero y) \<or> (is_inf x \<and> is_inf y) then [InvalidValue]
      else if is_inf x \<or> is_inf y then []
      else if is_zero y then [DivideByZero]
      else if is_inf (ieee_div x y) then [Overflow]
      else [])"

definition sub_flags :: "pyfloat \<Rightarrow> pyfloat \<Rightarrow> warning list" where
  \<comment> \<open>The IEEE flags of a subtraction that numpy reports.\<close>
  "sub_flags x y =
     (if is_nan x \<or> is_nan y then []
      else if is_inf x \<and> is_inf y then (if signbit x = signbit y then [InvalidValue] else [])
      else if is_inf x \<or> is_inf y then []
      else if is_inf (ieee_sub x y) then [Overflow]
      else [])"

type_synonym 'a outcome = "(error + 'a) \<times> warning list"

definition seq :: "'a outcome \<Rightarrow> ('a \<Rightarrow> 'b outcome) \<Rightarrow> 'b outcome" where
  "seq r f =
     (case r of
        (Inl e, w) \<Rightarrow> (Inl e, w)
      | (Inr v, w) \<Rightarrow> (case f v of (r', w') \<Rightarrow> (r', w @ w')))"

definition subtract :: "arith \<Rightarrow> pyfloat \<Rightarrow> pyfloat \<Rightarrow> pyfloat outcome" where
  "subtract k x y = (Inr (ieee_sub x y), case k of Builtin \<Rightarrow> [] | Numpy \<Rightarrow> sub_flags x y)"

definition truediv :: "arith \<Rightarrow> pyfloat \<Rightarrow> pyfloat \<Rightarrow> pyfloat outcome" where
  "truediv k x y =
     (case k of
        Builtin \<Rightarrow> (if is_zero y then Inl ZeroDivisionError else Inr (ieee_div x y), [])
      | Numpy \<Rightarrow> (Inr (ieee_div x y), div_flags x y))"

definition of_pyint :: "int \<Rightarrow> pyfloat outcome" where
  \<comment> \<open>The conversion of an \<^verbatim>\<open>int\<close> operand of a float division.\<close>
  "of_pyint i =
     (let y = round64 (of_int i) in (if is_inf y then Inl OverflowError else Inr y, []))"

subsection \<open>The function\<close>

text \<open>
  \<^verbatim>\<open>stats.f.cdf\<close> belongs to scipy, not to the notebook: the model takes the evaluator
  as the parameter \<open>cdf\<close>, a function of the argument and the two degrees of freedom that
  answers a binary64 value or raises (\<open>EvaluatorError\<close> stands for whatever it raises).
  What a theorem needs of the evaluator is a hypothesis of that theorem; what the
  evaluator itself may write is not part of the model.

  The residual sums are finite binary64 values, given as the reals they are; the degrees
  of freedom and the number of bins are Python integers. A call ends with an exception or
  a returned object; it issues warnings (numpy's, in the first statement) and prints lines
  (its own \<^verbatim>\<open>print\<close>).
\<close>

type_synonym evaluator = "pyfloat \<Rightarrow> int \<Rightarrow> int \<Rightarrow> error + pyfloat"

definition Ftest_first :: "arith \<Rightarrow> real \<Rightarrow> real \<Rightarrow> int \<Rightarrow> int \<Rightarrow> int \<Rightarrow> pyfloat outcome" where
  \<comment> \<open>The first statement, in Python's order of evaluation: the difference, the first
      quotient (which converts its \<^verbatim>\<open>int\<close> divisor), the second quotient (likewise), the
      outer quotient.\<close>
  "Ftest_first k ssr_1 ssr_2 ndof_1 ndof_2 nbins =
     seq (subtract k (Num ssr_1) (Num ssr_2)) (\<lambda>diff.
     seq (of_pyint (ndof_2 - ndof_1)) (\<lambda>d.
     seq (truediv k diff d) (\<lambda>a.
     seq (of_pyint (nbins - ndof_2)) (\<lambda>m.
     seq (truediv k (Num ssr_2) m) (\<lambda>b.
     truediv k a b)))))"

definition Ftest_F :: "arith \<Rightarrow> real \<Rightarrow> real \<Rightarrow> int \<Rightarrow> int \<Rightarrow> int \<Rightarrow> error + pyfloat" where
  \<comment> \<open>The local \<^verbatim>\<open>F\<close>, or the exception of the first statement.\<close>
  "Ftest_F k ssr_1 ssr_2 ndof_1 ndof_2 nbins = fst (Ftest_first k ssr_1 ssr_2 ndof_1 ndof_2 nbins)"

text \<open>
  A printed line is the list of the arguments of \<^verbatim>\<open>print\<close>. \<open>Fmt3 x\<close> stands for the
  string \<^verbatim>\<open>"CL: %.3f" % x\<close>, whose digits are not computed. A returned object is a
  float, a string or a tuple. The literal \<^verbatim>\<open>0.10\<close> is the binary64 value nearest to a
  tenth.
\<close>

datatype item = Fmt3 pyfloat | Str string

datatype pyval = PyFloat pyfloat | PyStr string | PyTuple "pyval list"

definition Ftest_CL :: "evaluator \<Rightarrow> pyfloat \<Rightarrow> int \<Rightarrow> int \<Rightarrow> int \<Rightarrow> error + pyfloat" where
  \<comment> \<open>The second statement: the local \<^verbatim>\<open>CL\<close>, from the value of \<^verbatim>\<open>F\<close>.\<close>
  "Ftest_CL cdf F ndof_1 ndof_2 nbins =
     (case cdf F (ndof_2 - ndof_1) (nbins - ndof_2) of
        Inl e \<Rightarrow> Inl e
      | Inr c \<Rightarrow> Inr (ieee_sub (Num 1) c))"

definition diag_line :: "pyfloat \<Rightarrow> item list" where
  \<comment> \<open>The arguments of the \<^verbatim>\<open>print\<close> of the third statement.\<close>
  "diag_line CL =
     [Fmt3 CL, Str '', additional parameter necessary:'',
      Str (if fl_less CL (round64 (1 / 10)) then ''YES'' else ''NO'')]"

definition Ftest ::
  "arith \<Rightarrow> evaluator \<Rightarrow> real \<Rightarrow> real \<Rightarrow> int \<Rightarrow> int \<Rightarrow> int \<Rightarrow> bool
     \<Rightarrow> (error + pyval) \<times> warning list \<times> item list list" where
  \<comment> \<open>The whole call: the exception or the object returned, the warnings issued and the
      lines printed.\<close>
  "Ftest k cdf ssr_1 ssr_2 ndof_1 ndof_2 nbins verbose =
     (case Ftest_first k ssr_1 ssr_2 ndof_1 ndof_2 nbins of
        (Inl e, w) \<Rightarrow> (Inl e, w, [])
      | (Inr F, w) \<Rightarrow>
          (case Ftest_CL cdf F ndof_1 ndof_2 nbins of
             Inl e \<Rightarrow> (Inl e, w, [])
           | Inr CL \<Rightarrow> (Inr (PyFloat CL), w, if verbose then [diag_line CL] else [])))"

definition Ftest_default ::
  "arith \<Rightarrow> evaluator \<Rightarrow> real \<Rightarrow> real \<Rightarrow> int \<Rightarrow> int \<Rightarrow> int
     \<Rightarrow> (error + pyval) \<times> warning list \<times> item list list" where
  \<comment> \<open>A call that leaves \<^verbatim>\<open>verbose\<close> at its default.\<close>
  "Ftest_default k cdf ssr_1 ssr_2 ndof_1 ndof_2 nbins =
     Ftest k cdf ssr_1 ssr_2 ndof_1 ndof_2 nbins False"

definition returned :: "(error + pyval) \<times> warning list \<times> item list list \<Rightarrow> error + pyval" where
  \<comment> \<open>What the caller gets: the exception or the returned object.\<close>
  "returned r = fst r"

definition warned :: "(error + pyval) \<times> warning list \<times> item list list \<Rightarrow> warning list" where
  \<comment> \<open>The warnings the call issued.\<close>
  "warned r = fst (snd r)"

definition printed :: "(error + pyval) \<times> warning list \<times> item list list \<Rightarrow> item list list" where
  \<comment> \<open>The lines the call printed.\<close>
  "printed r = snd (snd r)"

subsection \<open>The comparator as the specification words it\<close>

text \<open>
  The specification's algorithm, "bit-for-bit up to floating-point rounding": every
  operation in binary64, with no trap.
  \<^verbatim>\<open>
  F = ((ssr_simple - ssr_rich) / (dof_rich - dof_simple)) / (ssr_rich / (n_observations - dof_rich))
  confidence_level = 1 - FisherCDF(F, d1 = dof_rich - dof_simple, d2 = n_observations - dof_rich)
  decision = "additional parameter justified" if confidence_level < 0.10 else "simpler model sufficient"
  \<close>
  with the triple \<^verbatim>\<open>(F, confidence_level, decision)\<close> as its output.
\<close>

definition spec_F :: "real \<Rightarrow> real \<Rightarrow> int \<Rightarrow> int \<Rightarrow> int \<Rightarrow> pyfloat" where
  "spec_F ssr_simple ssr_rich dof_simple dof_rich n_observations =
     ieee_div
       (ieee_div (ieee_sub (Num ssr_simple) (Num ssr_rich))
          (round64 (of_int (dof_rich - dof_simple))))
       (ieee_div (Num ssr_rich) (round64 (of_int (n_observations - dof_rich))))"

definition spec_confidence_level ::
  "evaluator \<Rightarrow> real \<Rightarrow> real \<Rightarrow> int \<Rightarrow> int \<Rightarrow> int \<Rightarrow> error + pyfloat" where
  "spec_confidence_level cdf ssr_simple ssr_rich dof_simple dof_rich n_observations =
     (case cdf (spec_F ssr_simple ssr_rich dof_simple dof_rich n_observations)
             (dof_rich - dof_simple) (n_observations - dof_rich) of
        Inl e \<Rightarrow> Inl e
      | Inr c \<Rightarrow> Inr (ieee_sub (Num 1) c))"

definition spec_decision :: "pyfloat \<Rightarrow> string" where
  "spec_decision confidence_level =
     (if fl_less confidence_level (round64 (1 / 10))
      then ''additional parameter justified'' else ''simpler model sufficient'')"

definition spec_compare :: "evaluator \<Rightarrow> real \<Rightarrow> real \<Rightarrow> int \<Rightarrow> int \<Rightarrow> int \<Rightarrow> error + pyval" where
  "spec_compare cdf ssr_simple ssr_rich dof_simple dof_rich n_observations =
     (case spec_confidence_level cdf ssr_simple ssr_rich dof_simple dof_rich n_observations of
        Inl e \<Rightarrow> Inl e
      | Inr cl \<Rightarrow>
          Inr (PyTuple
                 [PyFloat (spec_F ssr_simple ssr_rich dof_simple dof_rich n_observations),
                  PyFloat cl, PyStr (spec_decision cl)]))"

subsection \<open>An evaluator for the closed instances\<close>

text \<open>
  The theorems are about any evaluator; their closed instances need one. \<open>cdf22\<close> follows
  the conventions of \<^verbatim>\<open>scipy.stats.f.cdf\<close> outside the support (NaN for a NaN argument
  or a degree of freedom that is not positive, 0 up to the lower end 0 of the support, 1 at
  the upper end \<open>+inf\<close>) and takes inside it the closed form \<open>x / (1 + x)\<close> of the F
  distribution with 2 and 2 degrees of freedom, rounded, whatever the degrees of freedom
  are. The closed instances that evaluate it inside the support have 2 and 2 degrees of
  freedom. It raises nothing.
\<close>

definition cdf22_value :: "pyfloat \<Rightarrow> pyfloat" where
  "cdf22_value x =
     (if is_nan x then NaN
      else if x = PosInf then Num 1
      else if x = NegInf \<or> fin_val x \<le> 0 then Num 0
      else round64 (fin_val x / (1 + fin_val x)))"

definition cdf22 :: evaluator where
  "cdf22 x dfn dfd = Inr (if dfn \<le> 0 \<or> dfd \<le> 0 then NaN else cdf22_value x)"

section \<open>Properties of the model\<close>

subsection \<open>Rounding to an integer and the bisection\<close>

lemma rne_of_int: "rne (of_int n) = n"
  by (simp add: rne_def)

lemma rne_floor_le: "\<lfloor>x\<rfloor> \<le> rne x"
  by (simp add: rne_def Let_def)

lemma rne_le_floor: "rne x \<le> \<lfloor>x\<rfloor> + 1"
  by (simp add: rne_def Let_def)

lemma rne_mono:
  assumes "x \<le> y"
  shows "rne x \<le> rne y"
proof (cases "\<lfloor>x\<rfloor> = \<lfloor>y\<rfloor>")
  case True
  with assms have "x - of_int \<lfloor>x\<rfloor> \<le> y - of_int \<lfloor>y\<rfloor>"
    by simp
  with True show ?thesis
    by (auto simp add: rne_def Let_def)
next
  case False
  with assms have "\<lfloor>x\<rfloor> < \<lfloor>y\<rfloor>"
    by (simp add: floor_mono order.not_eq_order_implies_strict)
  then have "\<lfloor>x\<rfloor> + 1 \<le> \<lfloor>y\<rfloor>"
    by simp
  with rne_le_floor [of x] rne_floor_le [of y] show ?thesis
    by linarith
qed

lemma rne_le_int: "x \<le> of_int n \<Longrightarrow> rne x \<le> n"
  using rne_mono [of x "of_int n"] by (simp add: rne_of_int)

lemma rne_ge_int: "of_int n \<le> x \<Longrightarrow> n \<le> rne x"
  using rne_mono [of "of_int n" x] by (simp add: rne_of_int)

lemma rne_zero_iff:
  assumes "0 \<le> x"
  shows "rne x = 0 \<longleftrightarrow> x \<le> 1 / 2"
proof
  assume z: "rne x = 0"
  show "x \<le> 1 / 2"
  proof (rule ccontr)
    assume "\<not> x \<le> 1 / 2"
    then have h: "1 / 2 < x" by simp
    show False
    proof (cases "x < 1")
      case True
      with h have "\<lfloor>x\<rfloor> = 0" by (simp add: floor_eq_iff)
      with h z show False by (simp add: rne_def Let_def split: if_splits)
    next
      case False
      then have "of_int 1 \<le> x" by simp
      then have "1 \<le> rne x" by (rule rne_ge_int)
      with z show False by simp
    qed
  qed
next
  assume h: "x \<le> 1 / 2"
  with assms have "\<lfloor>x\<rfloor> = 0" by (simp add: floor_eq_iff)
  with h show "rne x = 0" by (simp add: rne_def Let_def)
qed

lemma bsearch_below:
  "x < 2 powi (e + 1) \<Longrightarrow> bsearch n e x = e"
proof (induction n arbitrary: e)
  case 0
  show ?case by simp
next
  case (Suc n)
  have "(2::real) powi (e + 1) \<le> 2 powi (e + 2 ^ n)"
    by (rule power_int_increasing) simp_all
  with Suc.prems have "\<not> 2 powi (e + 2 ^ n) \<le> x"
    by simp
  with Suc show ?case by simp
qed

lemma bsearch_correct:
  "2 powi e \<le> x \<Longrightarrow> x < 2 powi (e + 2 ^ n) \<Longrightarrow>
   2 powi (bsearch n e x) \<le> x \<and> x < 2 powi (bsearch n e x + 1)"
proof (induction n arbitrary: e)
  case 0
  then show ?case by simp
next
  case (Suc n)
  show ?case
  proof (cases "2 powi (e + 2 ^ n) \<le> x")
    case True
    have "e + 2 ^ Suc n = (e + 2 ^ n) + 2 ^ n" by simp
    with Suc.prems(2) have "x < 2 powi ((e + 2 ^ n) + 2 ^ n)" by (simp only:)
    with True Suc.IH [of "e + 2 ^ n"] show ?thesis by simp
  next
    case False
    then have "x < 2 powi (e + 2 ^ n)" by simp
    with False Suc.prems(1) Suc.IH [of e] show ?thesis by simp
  qed
qed

subsection \<open>The exponent of the last place\<close>

lemma bsearch_lower: "2 powi e \<le> x \<Longrightarrow> 2 powi (bsearch n e x) \<le> x"
proof (induction n arbitrary: e)
  case 0
  then show ?case by simp
next
  case (Suc n)
  show ?case
  proof (cases "2 powi (e + 2 ^ n) \<le> x")
    case True
    with Suc.IH [of "e + 2 ^ n"] show ?thesis by simp
  next
    case False
    with Suc.prems Suc.IH [of e] show ?thesis by simp
  qed
qed

lemma quantum_ge: "- 1074 \<le> quantum x"
  by (simp add: quantum_def)

lemma quantum_minus: "quantum (- x) = quantum x"
  by (simp add: quantum_def)

text \<open>Outside the subnormal range the exponent is not above the logarithm.\<close>

lemma quantum_lower: "quantum x = - 1074 \<or> 2 powi (quantum x + 52) \<le> \<bar>x\<bar>"
proof (cases "\<bar>x\<bar> < 2 powi (- 1074 + 1)")
  case True
  then have "bsearch 12 (- 1074) \<bar>x\<bar> = - 1074" by (rule bsearch_below)
  then show ?thesis by (simp add: quantum_def)
next
  case False
  have "(2::real) powi (- 1074) \<le> 2 powi (- 1074 + 1)"
    by (rule power_int_increasing) simp_all
  with False have "2 powi (- 1074) \<le> \<bar>x\<bar>" by simp
  then have low: "2 powi (bsearch 12 (- 1074) \<bar>x\<bar>) \<le> \<bar>x\<bar>" by (rule bsearch_lower)
  show ?thesis
  proof (cases "quantum x = - 1074")
    case True
    then show ?thesis by simp
  next
    case False
    then have "quantum x + 52 = bsearch 12 (- 1074) \<bar>x\<bar>"
      by (simp add: quantum_def max_def split: if_splits)
    with low show ?thesis by simp
  qed
qed

text \<open>Below the overflow threshold the exponent is not below the logarithm.\<close>

lemma quantum_upper:
  assumes "\<bar>x\<bar> < 2 ^ 1024"
  shows "\<bar>x\<bar> < 2 powi (quantum x + 53)"
proof (cases "\<bar>x\<bar> < 2 powi (- 1074)")
  case True
  have "(2::real) powi (- 1074) \<le> 2 powi (quantum x + 53)"
    by (rule power_int_increasing) (use quantum_ge [of x] in simp_all)
  with True show ?thesis by simp
next
  case False
  then have lo: "2 powi (- 1074) \<le> \<bar>x\<bar>" by simp
  have "(2::real) ^ 1024 = 2 powi 1024" by simp
  also have "\<dots> \<le> 2 powi (- 1074 + 2 ^ 12)"
    by (rule power_int_increasing) simp_all
  finally have "\<bar>x\<bar> < 2 powi (- 1074 + 2 ^ 12)" using assms by simp
  with lo have up: "\<bar>x\<bar> < 2 powi (bsearch 12 (- 1074) \<bar>x\<bar> + 1)"
    using bsearch_correct [of "- 1074" "\<bar>x\<bar>" 12] by simp
  have "bsearch 12 (- 1074) \<bar>x\<bar> + 1 \<le> quantum x + 53"
    by (simp add: quantum_def)
  then have "(2::real) powi (bsearch 12 (- 1074) \<bar>x\<bar> + 1) \<le> 2 powi (quantum x + 53)"
    by (rule power_int_increasing) simp
  with up show ?thesis by simp
qed

lemma quantum_mono:
  assumes "\<bar>x\<bar> \<le> \<bar>y\<bar>" and "\<bar>y\<bar> < 2 ^ 1024"
  shows "quantum x \<le> quantum y"
proof (rule ccontr)
  assume "\<not> quantum x \<le> quantum y"
  then have gt: "quantum y < quantum x" by simp
  with quantum_ge [of y] have "quantum x \<noteq> - 1074" by simp
  with quantum_lower [of x] have "2 powi (quantum x + 52) \<le> \<bar>x\<bar>" by simp
  also have "\<dots> \<le> \<bar>y\<bar>" by (rule assms(1))
  also have "\<dots> < 2 powi (quantum y + 53)" using assms(2) by (rule quantum_upper)
  also have "\<dots> \<le> 2 powi (quantum x + 52)"
    by (rule power_int_increasing) (use gt in simp_all)
  finally show False by simp
qed

subsection \<open>The size of a rounded value\<close>

lemma two_powi_pos: "0 < (2::real) powi q"
  by (simp add: zero_less_power_int)

lemma rne_nonneg: "0 \<le> x \<Longrightarrow> 0 \<le> rne x"
  using rne_ge_int [of 0 x] by simp

lemma mag_nonneg: "0 \<le> mag x"
  unfolding mag_def
  by (intro mult_nonneg_nonneg) (simp_all add: rne_nonneg two_powi_pos less_imp_le)

lemma mag_minus: "mag (- x) = mag x"
  by (simp add: mag_def quantum_minus)

lemma round64_mag:
  "round64 x =
     (if 2 ^ 1024 \<le> \<bar>x\<bar> \<or> 2 ^ 1024 \<le> mag x then inf_of (x < 0)
      else if mag x = 0 then zero_of (x < 0)
      else Num (sgn x * mag x))"
proof -
  have z: "mag x = 0 \<longleftrightarrow> rne (\<bar>x\<bar> / 2 powi quantum x) = 0"
    using two_powi_pos [of "quantum x"] by (simp add: mag_def)
  show ?thesis
    unfolding round64_def Let_def z [symmetric]
    by (auto simp add: mag_def mult.assoc)
qed

lemma mag_zero_iff: "mag x = 0 \<longleftrightarrow> \<bar>x\<bar> \<le> 2 powi (- 1075)"
proof -
  let ?q = "quantum x"
  have pos: "0 < (2::real) powi ?q" by (rule two_powi_pos)
  have "mag x = 0 \<longleftrightarrow> rne (\<bar>x\<bar> / 2 powi ?q) = 0"
    using pos by (simp add: mag_def)
  also have "\<dots> \<longleftrightarrow> \<bar>x\<bar> / 2 powi ?q \<le> 1 / 2"
    by (rule rne_zero_iff) (use pos in simp)
  also have "\<dots> \<longleftrightarrow> \<bar>x\<bar> \<le> 2 powi ?q / 2"
    using pos by (simp add: field_simps)
  also have "\<dots> \<longleftrightarrow> \<bar>x\<bar> \<le> 2 powi (- 1075)"
  proof
    assume h: "\<bar>x\<bar> \<le> 2 powi ?q / 2"
    have "?q = - 1074"
    proof (rule ccontr)
      assume "?q \<noteq> - 1074"
      with quantum_lower [of x] have "2 powi (?q + 52) \<le> \<bar>x\<bar>" by simp
      with h have "(2::real) powi (?q + 52) \<le> 2 powi ?q / 2" by simp
      moreover have "(2::real) powi (?q + 52) = 2 powi ?q * 2 ^ 52"
        by (simp add: power_int_add)
      ultimately show False using pos by simp
    qed
    with h show "\<bar>x\<bar> \<le> 2 powi (- 1075)" by simp
  next
    assume h: "\<bar>x\<bar> \<le> 2 powi (- 1075)"
    have "(2::real) powi (- 1075) < 2 powi (- 1074 + 1)"
      by (rule power_int_strict_increasing) simp_all
    with h have "\<bar>x\<bar> < 2 powi (- 1074 + 1)" by simp
    then have "bsearch 12 (- 1074) \<bar>x\<bar> = - 1074" by (rule bsearch_below)
    then have "?q = - 1074" by (simp add: quantum_def)
    with h show "\<bar>x\<bar> \<le> 2 powi ?q / 2" by simp
  qed
  finally show ?thesis .
qed

lemma mag_le_top:
  assumes "\<bar>x\<bar> < 2 ^ 1024"
  shows "mag x \<le> 2 powi (quantum x + 53)"
proof -
  let ?q = "quantum x"
  have pos: "0 < (2::real) powi ?q" by (rule two_powi_pos)
  have split: "(2::real) powi (?q + 53) = 2 powi ?q * 2 ^ 53"
    by (simp add: power_int_add)
  from assms have "\<bar>x\<bar> < 2 powi (?q + 53)" by (rule quantum_upper)
  with pos have "\<bar>x\<bar> / 2 powi ?q \<le> of_int (2 ^ 53)"
    by (simp add: split field_simps)
  then have "rne (\<bar>x\<bar> / 2 powi ?q) \<le> 2 ^ 53" by (rule rne_le_int)
  then have "real_of_int (rne (\<bar>x\<bar> / 2 powi ?q)) \<le> 2 ^ 53"
    by (metis of_int_le_iff of_int_numeral of_int_power)
  with pos show ?thesis
    by (simp add: mag_def split mult.commute mult_left_mono)
qed

lemma mag_ge_bottom:
  assumes "quantum x \<noteq> - 1074"
  shows "2 powi (quantum x + 52) \<le> mag x"
proof -
  let ?q = "quantum x"
  have pos: "0 < (2::real) powi ?q" by (rule two_powi_pos)
  have split: "(2::real) powi (?q + 52) = 2 powi ?q * 2 ^ 52"
    by (simp add: power_int_add)
  from assms quantum_lower [of x] have "2 powi (?q + 52) \<le> \<bar>x\<bar>" by simp
  with pos have "of_int (2 ^ 52) \<le> \<bar>x\<bar> / 2 powi ?q"
    by (simp add: split field_simps)
  then have "2 ^ 52 \<le> rne (\<bar>x\<bar> / 2 powi ?q)" by (rule rne_ge_int)
  then have "2 ^ 52 \<le> real_of_int (rne (\<bar>x\<bar> / 2 powi ?q))"
    by (metis of_int_le_iff of_int_numeral of_int_power)
  with pos show ?thesis
    by (simp add: mag_def split mult.commute mult_left_mono)
qed

lemma mag_mono:
  assumes "\<bar>x\<bar> \<le> \<bar>y\<bar>" and "\<bar>y\<bar> < 2 ^ 1024"
  shows "mag x \<le> mag y"
proof -
  from assms have q: "quantum x \<le> quantum y" by (rule quantum_mono)
  show ?thesis
  proof (cases "quantum x = quantum y")
    case True
    have pos: "0 < (2::real) powi quantum y" by (rule two_powi_pos)
    with assms(1) have "\<bar>x\<bar> / 2 powi quantum y \<le> \<bar>y\<bar> / 2 powi quantum y"
      by (simp add: divide_right_mono)
    then have "rne (\<bar>x\<bar> / 2 powi quantum y) \<le> rne (\<bar>y\<bar> / 2 powi quantum y)"
      by (rule rne_mono)
    with pos show ?thesis
      by (simp add: mag_def True)
  next
    case False
    with q have lt: "quantum x + 53 \<le> quantum y + 52" by simp
    from assms have "\<bar>x\<bar> < 2 ^ 1024" by simp
    then have "mag x \<le> 2 powi (quantum x + 53)" by (rule mag_le_top)
    also have "\<dots> \<le> 2 powi (quantum y + 52)"
      by (rule power_int_increasing) (use lt in simp_all)
    also have "\<dots> \<le> mag y"
    proof (rule mag_ge_bottom)
      from False q quantum_ge [of x] show "quantum y \<noteq> - 1074" by simp
    qed
    finally show ?thesis .
  qed
qed

subsection \<open>Sign, zero and order of a rounded value\<close>

lemmas fl_defs = is_nan_def is_inf_def is_zero_def signbit_def fin_val_def zero_of_def inf_of_def

lemma round64_pos:
  "0 \<le> x \<Longrightarrow>
   round64 x = (if 2 ^ 1024 \<le> x \<or> 2 ^ 1024 \<le> mag x then PosInf else Num (mag x))"
  by (cases "x = 0") (auto simp add: round64_mag fl_defs mag_zero_iff)

lemma round64_neg:
  "x < 0 \<Longrightarrow>
   round64 x = (if 2 ^ 1024 \<le> - x \<or> 2 ^ 1024 \<le> mag x then NegInf
                else if mag x = 0 then NegZero else Num (- mag x))"
  by (auto simp add: round64_mag fl_defs)

lemma round64_not_nan: "\<not> is_nan (round64 x)"
  by (cases "0 \<le> x") (simp_all add: round64_pos round64_neg is_nan_def)

lemma round64_signbit: "signbit (round64 x) \<longleftrightarrow> x < 0"
proof (cases "0 \<le> x")
  case True
  with mag_nonneg [of x] show ?thesis
    by (simp add: round64_pos signbit_def)
next
  case False
  with mag_nonneg [of x] show ?thesis
    by (auto simp add: round64_neg signbit_def)
qed

lemma round64_zero_iff: "is_zero (round64 x) \<longleftrightarrow> \<bar>x\<bar> \<le> 2 powi (- 1075)"
proof -
  have small: "\<bar>x\<bar> \<le> 2 powi (- 1075) \<Longrightarrow> \<not> 2 ^ 1024 \<le> \<bar>x\<bar>"
  proof -
    assume "\<bar>x\<bar> \<le> 2 powi (- 1075)"
    also have "(2::real) powi (- 1075) < 2 powi 1024"
      by (rule power_int_strict_increasing) simp_all
    finally show ?thesis by simp
  qed
  show ?thesis
  proof (cases "0 \<le> x")
    case True
    with small mag_zero_iff [of x] show ?thesis
      by (auto simp add: round64_pos is_zero_def)
  next
    case False
    with small mag_zero_iff [of x] show ?thesis
      by (auto simp add: round64_neg is_zero_def)
  qed
qed

lemma round64_mono_nonneg:
  assumes "0 \<le> x" and "x \<le> y"
  shows "fl_le (round64 x) (round64 y)"
proof (cases "2 ^ 1024 \<le> y \<or> 2 ^ 1024 \<le> mag y")
  case True
  with assms have "round64 y = PosInf" by (simp add: round64_pos)
  with round64_not_nan [of x] show ?thesis by (simp add: fl_le_def is_nan_def)
next
  case False
  with assms have y: "round64 y = Num (mag y)" and ylt: "\<bar>y\<bar> < 2 ^ 1024"
    by (simp_all add: round64_pos)
  from assms have "\<bar>x\<bar> \<le> \<bar>y\<bar>" by simp
  then have m: "mag x \<le> mag y" using ylt by (rule mag_mono)
  with False assms have "round64 x = Num (mag x)" by (simp add: round64_pos)
  with y m show ?thesis by (simp add: fl_le_def fl_defs)
qed

lemma round64_mono_neg:
  assumes "y < 0" and "x \<le> y"
  shows "fl_le (round64 x) (round64 y)"
proof (cases "2 ^ 1024 \<le> - x \<or> 2 ^ 1024 \<le> mag x")
  case True
  with assms have "round64 x = NegInf" by (simp add: round64_neg)
  with round64_not_nan [of y] show ?thesis by (simp add: fl_le_def is_nan_def)
next
  case False
  with assms have xlt: "\<bar>x\<bar> < 2 ^ 1024" by simp
  from assms have "\<bar>y\<bar> \<le> \<bar>x\<bar>" by simp
  then have m: "mag y \<le> mag x" using xlt by (rule mag_mono)
  from assms False m have "\<not> (2 ^ 1024 \<le> - y \<or> 2 ^ 1024 \<le> mag y)" by auto
  with assms False m mag_nonneg [of x] mag_nonneg [of y] show ?thesis
    by (auto simp add: round64_neg fl_le_def fl_defs)
qed

lemma round64_mono:
  assumes "x \<le> y"
  shows "fl_le (round64 x) (round64 y)"
proof -
  consider "0 \<le> x" | "y < 0" | "x < 0" "0 \<le> y" by linarith
  then show ?thesis
  proof cases
    case 1
    then show ?thesis using assms by (rule round64_mono_nonneg)
  next
    case 2
    then show ?thesis using assms by (rule round64_mono_neg)
  next
    case 3
    with mag_nonneg [of x] mag_nonneg [of y] show ?thesis
      by (auto simp add: round64_neg round64_pos fl_le_def fl_defs)
  qed
qed

subsection \<open>Integers up to \<open>2 ^ 53\<close> are exact\<close>

lemma mag_0: "mag 0 = 0"
  using mag_zero_iff [of 0] two_powi_pos [of "- 1075"] by simp

lemma mag_int:
  assumes "0 < i" and "i \<le> 2 ^ 53"
  shows "mag (of_int i) = of_int i"
proof -
  define x where "x = real_of_int i"
  define q where "q = quantum x"
  have pos: "0 < (2::real) powi q" by (rule two_powi_pos)
  from assms have x1: "1 \<le> x" and x53: "x \<le> 2 ^ 53"
    unfolding x_def by (simp, metis of_int_le_iff of_int_numeral of_int_power)
  have m: "mag x = of_int (rne (x / 2 powi q)) * 2 powi q"
    using x1 by (simp add: mag_def q_def)
  from x1 x53 have "\<bar>x\<bar> < 2 ^ 1024"
    by simp
  then have "\<bar>x\<bar> < 2 powi (quantum x + 53)" by (rule quantum_upper)
  with x1 have up: "x < 2 powi (q + 53)" by (simp add: q_def)
  have lo: "- 52 \<le> q"
  proof (rule ccontr)
    assume "\<not> - 52 \<le> q"
    then have "q + 53 \<le> 0" by simp
    then have "(2::real) powi (q + 53) \<le> 2 powi 0"
      by (rule power_int_increasing) simp
    with up x1 show False by simp
  qed
  then have "quantum x \<noteq> - 1074" by (simp add: q_def)
  with quantum_lower [of x] have low: "2 powi (q + 52) \<le> x" using x1 by (simp add: q_def)
  have hi: "q \<le> 1"
  proof (rule ccontr)
    assume "\<not> q \<le> 1"
    then have "54 \<le> q + 52" by simp
    then have "(2::real) powi 54 \<le> 2 powi (q + 52)"
      by (rule power_int_increasing) simp
    with low x53 show False by simp
  qed
  have "mag x = x"
  proof (cases "q = 1")
    case True
    with low have "2 ^ 53 \<le> x" by simp
    with x53 have xe: "x = 2 ^ 53" by simp
    have "x / 2 powi q = of_int (2 ^ 52)" by (simp add: True xe)
    then have r: "rne (x / 2 powi q) = 2 ^ 52" by (simp only: rne_of_int)
    show ?thesis unfolding m r by (simp add: True xe)
  next
    case False
    with hi have q0: "q \<le> 0" by simp
    then have pw: "(2::real) powi q = 1 / 2 ^ nat (- q)"
      by (simp add: power_int_def inverse_eq_divide power_one_over)
    have "x / 2 powi q = of_int (i * 2 ^ nat (- q))"
      by (simp add: pw x_def)
    then have r: "rne (x / 2 powi q) = i * 2 ^ nat (- q)" by (simp only: rne_of_int)
    show ?thesis unfolding m r by (simp add: pw x_def)
  qed
  then show ?thesis by (simp add: x_def)
qed

lemma round64_int:
  assumes "\<bar>i\<bar> \<le> 2 ^ 53"
  shows "round64 (of_int i) = Num (of_int i)"
proof -
  have big: "(2::real) ^ 53 < 2 ^ 1024" by simp
  consider "i = 0" | "0 < i" | "i < 0" by linarith
  then show ?thesis
  proof cases
    case 1
    then show ?thesis by (simp add: round64_pos mag_0)
  next
    case 2
    with assms have le: "i \<le> 2 ^ 53" by simp
    with 2 have m: "mag (of_int i) = of_int i" by (rule mag_int)
    from le have "real_of_int i \<le> 2 ^ 53"
      by (metis of_int_le_iff of_int_numeral of_int_power)
    with big have "real_of_int i < 2 ^ 1024" by simp
    with 2 m show ?thesis by (simp add: round64_pos)
  next
    case 3
    with assms have le: "- i \<le> 2 ^ 53" and p: "0 < - i" by simp_all
    from p le have "mag (of_int (- i)) = of_int (- i)" by (rule mag_int)
    then have m: "mag (of_int i) = - of_int i" by (simp add: mag_minus)
    from le have "real_of_int (- i) \<le> 2 ^ 53"
      by (metis of_int_le_iff of_int_numeral of_int_power)
    with big have "- real_of_int i < 2 ^ 1024" by simp
    with 3 m show ?thesis by (simp add: round64_neg)
  qed
qed

subsection \<open>Evaluation of closed instances\<close>

lemma bsearch_numeral:
  "bsearch (numeral k) e x =
     bsearch (pred_numeral k)
       (if 2 powi (e + 2 ^ pred_numeral k) \<le> x then e + 2 ^ pred_numeral k else e) x"
  by (simp add: numeral_eq_Suc)

lemma bsearch_1: "bsearch 1 e x = (if 2 powi (e + 1) \<le> x then e + 1 else e)"
  by (simp add: One_nat_def [symmetric] del: One_nat_def) (simp add: One_nat_def)

lemmas round_eval = round64_def quantum_def rne_def Let_def zero_of_def inf_of_def
  bsearch_numeral bsearch_1

lemma round64_0: "round64 0 = Num 0"
  by (simp add: round64_pos mag_0)

lemma round64_numeral:
  "(numeral n :: int) \<le> 2 ^ 53 \<Longrightarrow> round64 (numeral n) = Num (numeral n)"
  using round64_int [of "numeral n"] by simp

lemma round64_neg_numeral:
  "(numeral n :: int) \<le> 2 ^ 53 \<Longrightarrow> round64 (- numeral n) = Num (- numeral n)"
  using round64_int [of "- numeral n"] by simp

lemma round64_1: "round64 1 = Num 1"
  using round64_int [of 1] by simp

lemma ieee_div_Num:
  "ieee_div (Num a) (Num b) =
     (if b = 0 then (if a = 0 then NaN else inf_of (a < 0))
      else if a = 0 then zero_of (b < 0) else round64 (a / b))"
  by (simp add: ieee_div_def fl_defs)

lemma ieee_sub_Num: "ieee_sub (Num a) (Num b) = round64 (a - b)"
  by (simp add: ieee_sub_def fl_defs round64_0)

lemma seq_Inr: "seq (Inr v, w) f = (case f v of (r', w') \<Rightarrow> (r', w @ w'))"
  by (simp add: seq_def)

lemma seq_Inl: "seq (Inl e, w) f = (Inl e, w)"
  by (simp add: seq_def)

lemma of_pyint_small: "\<bar>i\<bar> \<le> 2 ^ 53 \<Longrightarrow> of_pyint i = (Inr (Num (of_int i)), [])"
  by (simp add: of_pyint_def round64_int is_inf_def)

lemmas run_defs = Ftest_def Ftest_first_def Ftest_F_def Ftest_CL_def seq_Inr seq_Inl subtract_def
  truediv_def of_pyint_small ieee_div_Num ieee_sub_Num div_flags_def sub_flags_def
  is_nan_def is_inf_def is_zero_def signbit_def fin_val_def zero_of_def inf_of_def
  cdf22_def cdf22_value_def returned_def warned_def printed_def diag_line_def fl_less_def fl_le_def spec_F_def
  spec_confidence_level_def spec_decision_def spec_compare_def Ftest_default_def
  round64_numeral round64_neg_numeral round64_0 round64_1

subsection \<open>The statements of the function\<close>

lemma Ftest_first_Builtin:
  "Ftest_first Builtin ssr_1 ssr_2 ndof_1 ndof_2 nbins =
     (let D = round64 (of_int (ndof_2 - ndof_1)); M = round64 (of_int (nbins - ndof_2));
          b = ieee_div (Num ssr_2) M
      in (if is_inf D then Inl OverflowError
          else if is_zero D then Inl ZeroDivisionError
          else if is_inf M then Inl OverflowError
          else if is_zero M then Inl ZeroDivisionError
          else if is_zero b then Inl ZeroDivisionError
          else Inr (ieee_div (ieee_div (ieee_sub (Num ssr_1) (Num ssr_2)) D) b), []))"
  by (simp add: Ftest_first_def subtract_def of_pyint_def truediv_def seq_Inr seq_Inl Let_def)

lemma Ftest_first_Numpy:
  "Ftest_first Numpy ssr_1 ssr_2 ndof_1 ndof_2 nbins =
     (let D = round64 (of_int (ndof_2 - ndof_1)); M = round64 (of_int (nbins - ndof_2));
          diff = ieee_sub (Num ssr_1) (Num ssr_2); a = ieee_div diff D;
          b = ieee_div (Num ssr_2) M; w0 = sub_flags (Num ssr_1) (Num ssr_2)
      in if is_inf D then (Inl OverflowError, w0)
         else if is_inf M then (Inl OverflowError, w0 @ div_flags diff D)
         else (Inr (ieee_div a b),
               w0 @ div_flags diff D @ div_flags (Num ssr_2) M @ div_flags a b))"
  by (simp add: Ftest_first_def subtract_def of_pyint_def truediv_def seq_Inr seq_Inl Let_def)

lemma Ftest_returned:
  "returned (Ftest k cdf ssr_1 ssr_2 ndof_1 ndof_2 nbins verbose) =
     (case Ftest_F k ssr_1 ssr_2 ndof_1 ndof_2 nbins of
        Inl e \<Rightarrow> Inl e
      | Inr F \<Rightarrow>
          (case cdf F (ndof_2 - ndof_1) (nbins - ndof_2) of
             Inl e \<Rightarrow> Inl e
           | Inr c \<Rightarrow> Inr (PyFloat (ieee_sub (Num 1) c))))"
  by (cases "Ftest_first k ssr_1 ssr_2 ndof_1 ndof_2 nbins")
    (simp add: Ftest_def Ftest_F_def Ftest_CL_def returned_def split: sum.splits)

lemma Ftest_warned:
  "warned (Ftest k cdf ssr_1 ssr_2 ndof_1 ndof_2 nbins verbose) =
     snd (Ftest_first k ssr_1 ssr_2 ndof_1 ndof_2 nbins)"
  by (cases "Ftest_first k ssr_1 ssr_2 ndof_1 ndof_2 nbins")
    (simp add: Ftest_def warned_def split: sum.splits)

lemma Ftest_printed:
  "printed (Ftest k cdf ssr_1 ssr_2 ndof_1 ndof_2 nbins verbose) =
     (case returned (Ftest k cdf ssr_1 ssr_2 ndof_1 ndof_2 nbins verbose) of
        Inl e \<Rightarrow> []
      | Inr v \<Rightarrow>
          (case v of
             PyFloat CL \<Rightarrow>
               if verbose
               then [[Fmt3 CL, Str '', additional parameter necessary:'',
                      Str (if fl_less CL (round64 (1 / 10)) then ''YES'' else ''NO'')]]
               else []
           | _ \<Rightarrow> []))"
  by (cases "Ftest_first k ssr_1 ssr_2 ndof_1 ndof_2 nbins")
    (simp add: Ftest_def printed_def returned_def diag_line_def split: sum.splits)

text \<open>The divisor \<open>ssr_2 / (nbins - ndof_2)\<close>: zero exactly when the quotient is at most
  \<open>2 powi (- 1075)\<close> in size.\<close>

lemma divisor_zero_iff:
  assumes "m \<noteq> 0"
  shows "is_zero (ieee_div (Num s) (Num m)) \<longleftrightarrow> \<bar>s\<bar> \<le> \<bar>m\<bar> * 2 powi (- 1075)"
proof (cases "s = 0")
  case True
  with assms show ?thesis
    by (simp add: ieee_div_Num fl_defs zero_le_power_int)
next
  case False
  from assms have "\<bar>s / m\<bar> \<le> 2 powi (- 1075) \<longleftrightarrow> \<bar>s\<bar> \<le> \<bar>m\<bar> * 2 powi (- 1075)"
    by (simp add: field_simps abs_mult)
  with False assms show ?thesis
    by (simp add: ieee_div_Num round64_zero_iff)
qed

text \<open>The value of the first statement for counts that convert exactly.\<close>

lemma Ftest_F_small_counts:
  assumes "\<bar>ndof_2 - ndof_1\<bar> \<le> 2 ^ 53" and "\<bar>nbins - ndof_2\<bar> \<le> 2 ^ 53"
  shows "Ftest_F Builtin ssr_1 ssr_2 ndof_1 ndof_2 nbins =
           (if ndof_2 = ndof_1 \<or> nbins = ndof_2 \<or>
               \<bar>ssr_2\<bar> \<le> \<bar>real_of_int (nbins - ndof_2)\<bar> * 2 powi (- 1075)
            then Inl ZeroDivisionError
            else Inr (spec_F ssr_1 ssr_2 ndof_1 ndof_2 nbins))"
    and "Ftest_F Numpy ssr_1 ssr_2 ndof_1 ndof_2 nbins =
           Inr (spec_F ssr_1 ssr_2 ndof_1 ndof_2 nbins)"
proof -
  have D: "round64 (of_int (ndof_2 - ndof_1)) = Num (of_int (ndof_2 - ndof_1))"
    using assms(1) by (rule round64_int)
  have M: "round64 (of_int (nbins - ndof_2)) = Num (of_int (nbins - ndof_2))"
    using assms(2) by (rule round64_int)
  show "Ftest_F Numpy ssr_1 ssr_2 ndof_1 ndof_2 nbins =
           Inr (spec_F ssr_1 ssr_2 ndof_1 ndof_2 nbins)"
    unfolding Ftest_F_def Ftest_first_Numpy spec_F_def D M
    by (simp add: Let_def is_inf_def)
  show "Ftest_F Builtin ssr_1 ssr_2 ndof_1 ndof_2 nbins =
           (if ndof_2 = ndof_1 \<or> nbins = ndof_2 \<or>
               \<bar>ssr_2\<bar> \<le> \<bar>real_of_int (nbins - ndof_2)\<bar> * 2 powi (- 1075)
            then Inl ZeroDivisionError
            else Inr (spec_F ssr_1 ssr_2 ndof_1 ndof_2 nbins))"
  proof (cases "nbins = ndof_2")
    case True
    then show ?thesis
      unfolding Ftest_F_def Ftest_first_Builtin D M
      by (simp add: Let_def is_inf_def is_zero_def)
  next
    case False
    then have "real_of_int (nbins - ndof_2) \<noteq> 0" by simp
    then have "is_zero (ieee_div (Num ssr_2) (Num (real_of_int (nbins - ndof_2)))) \<longleftrightarrow>
        \<bar>ssr_2\<bar> \<le> \<bar>real_of_int (nbins - ndof_2)\<bar> * 2 powi (- 1075)"
      by (rule divisor_zero_iff)
    with False show ?thesis
      unfolding Ftest_F_def Ftest_first_Builtin spec_F_def D M
      by (simp add: Let_def is_inf_def is_zero_def)
  qed
qed

subsection \<open>Order and sign under the operations\<close>

lemma powi_1075: "(2::real) powi (- 1075) = 1 / 2 ^ 1075"
  by (simp add: power_int_minus inverse_eq_divide)

lemma fl_le_not_nan: "fl_le x y \<Longrightarrow> \<not> is_nan x \<and> \<not> is_nan y"
  by (simp add: fl_le_def split: if_splits)

lemma div_pos_cases:
  assumes "0 < dd"
  shows "ieee_div x (Num dd) =
    (case x of Num u \<Rightarrow> round64 (u / dd) | NegZero \<Rightarrow> NegZero | PosInf \<Rightarrow> PosInf
     | NegInf \<Rightarrow> NegInf | NaN \<Rightarrow> NaN)"
  using assms by (cases x) (simp_all add: ieee_div_def fl_defs round64_0)

lemma fl_le_zero_left: "fl_le NegZero z = fl_le (Num 0) z"
  by (simp add: fl_le_def fl_defs)

lemma fl_le_zero_right: "fl_le z NegZero = fl_le z (Num 0)"
  by (simp add: fl_le_def fl_defs)

lemma fl_le_NegInf: "fl_le NegInf z = (\<not> is_nan z)"
  by (simp add: fl_le_def fl_defs)

lemma fl_le_PosInf: "fl_le z PosInf = (\<not> is_nan z)"
  by (simp add: fl_le_def fl_defs)

lemma fl_le_simps:
  "fl_le (Num u) (Num v) = (u \<le> v)"
  "fl_le (Num u) NegZero = (u \<le> 0)"
  "fl_le NegZero (Num v) = (0 \<le> v)"
  "fl_le NegZero NegZero"
  "fl_le PosInf (Num v) = False"
  "fl_le PosInf NegZero = False"
  "fl_le PosInf NegInf = False"
  "fl_le (Num u) NegInf = False"
  "fl_le NegZero NegInf = False"
  "fl_le NaN z = False"
  "fl_le z NaN = False"
  by (simp_all add: fl_le_def fl_defs)

lemma is_nan_simps:
  "is_nan (Num u) = False" "is_nan NegZero = False" "is_nan PosInf = False"
  "is_nan NegInf = False" "is_nan NaN = True"
  by (simp_all add: is_nan_def)

lemma div_mono_pos:
  assumes "fl_le x y" and "0 < dd"
  shows "fl_le (ieee_div x (Num dd)) (ieee_div y (Num dd))"
proof -
  have r: "fl_le (round64 (u / dd)) (round64 (v / dd))" if "u \<le> v" for u v
    using that assms(2) by (intro round64_mono divide_right_mono) simp_all
  have z1: "fl_le (round64 (u / dd)) (Num 0)" if "u \<le> 0" for u
    using r [OF that] by (simp add: round64_0)
  have z2: "fl_le (Num 0) (round64 (v / dd))" if "0 \<le> v" for v
    using r [OF that] by (simp add: round64_0)
  from assms(1) show ?thesis
    unfolding div_pos_cases [OF assms(2)]
    by (cases x; cases y)
      (simp_all add: fl_le_simps fl_le_zero_left fl_le_zero_right fl_le_NegInf fl_le_PosInf
        is_nan_simps round64_not_nan r z1 z2)
qed

lemma signbit_simps:
  "signbit (Num u) = (u < 0)" "signbit NegZero = True" "signbit PosInf = False"
  "signbit NegInf = True" "signbit NaN = False"
  by (simp_all add: signbit_def)

lemma div_pos_signbit:
  "0 < dd \<Longrightarrow> signbit (ieee_div x (Num dd)) = signbit x"
  by (cases x) (simp_all add: div_pos_cases round64_signbit signbit_simps divide_less_0_iff)

lemma one_minus_cases:
  "ieee_sub (Num 1) y =
    (case y of Num u \<Rightarrow> round64 (1 - u) | NegZero \<Rightarrow> Num 1 | PosInf \<Rightarrow> NegInf
     | NegInf \<Rightarrow> PosInf | NaN \<Rightarrow> NaN)"
  by (cases y) (simp_all add: ieee_sub_def fl_defs round64_1)

lemma one_minus_antitone:
  assumes "fl_le x y"
  shows "fl_le (ieee_sub (Num 1) y) (ieee_sub (Num 1) x)"
proof -
  have r: "fl_le (round64 (1 - v)) (round64 (1 - u))" if "u \<le> v" for u v :: real
    using that by (intro round64_mono) simp
  have z1: "fl_le (round64 (1 - v)) (Num 1)" if "0 \<le> v" for v :: real
    using r [OF that] by (simp add: round64_1)
  have z2: "fl_le (Num 1) (round64 (1 - u))" if "u \<le> 0" for u :: real
    using r [OF that] by (simp add: round64_1)
  from assms show ?thesis
    unfolding one_minus_cases
    by (cases x; cases y)
      (simp_all add: fl_le_simps fl_le_NegInf fl_le_PosInf is_nan_simps round64_not_nan r z1 z2)
qed

text \<open>The divisor of a representable positive residual sum.\<close>

lemma divisor_pos:
  assumes "is_double s" and "0 < m" and "m * 2 powi (- 1075) < s" and "1 \<le> m"
  obtains bv where "ieee_div (Num s) (Num m) = Num bv" and "0 < bv"
proof -
  from assms have s: "0 < s"
    by (meson less_trans mult_pos_pos two_powi_pos)
  with assms have q: "0 < s / m" by simp
  let ?b = "ieee_div (Num s) (Num m)"
  from assms s have b: "?b = round64 (s / m)" by (simp add: ieee_div_Num)
  have nz: "\<not> is_zero ?b"
    using divisor_zero_iff [of m s] assms s by simp
  have nn: "\<not> signbit ?b" using q by (simp add: b round64_signbit)
  have "s / m \<le> s"
    using assms(4) s by (simp add: field_simps)
  then have "fl_le ?b (round64 s)" unfolding b by (rule round64_mono)
  with assms(1) have le: "fl_le ?b (Num s)" by (simp add: is_double_def)
  from nz nn le obtain bv where "?b = Num bv" and "0 < bv"
    by (cases ?b) (auto simp add: fl_le_def fl_defs)
  then show ?thesis by (rule that)
qed

lemmas all_eval = run_defs round64_def quantum_def rne_def Let_def bsearch_numeral bsearch_1
  one_minus_cases

lemma sub_flags_benign: "list_all (\<lambda>w. w = Overflow) (sub_flags (Num a) (Num b))"
  by (simp add: sub_flags_def fl_defs)

lemma div_flags_benign:
  "\<not> is_zero y \<Longrightarrow> \<not> (is_inf x \<and> is_inf y) \<Longrightarrow> list_all (\<lambda>w. w = Overflow) (div_flags x y)"
  by (auto simp add: div_flags_def)

lemma tenth: "round64 (1 / 10) = Num (3602879701896397 / 36028797018963968)"
  by (simp add: round_eval)

lemma Ftest_F_valid:
  assumes "0 < ndof_2 - ndof_1" and "ndof_2 - ndof_1 \<le> 2 ^ 53"
    and "0 < nbins - ndof_2" and "nbins - ndof_2 \<le> 2 ^ 53"
    and "real_of_int (nbins - ndof_2) / 2 ^ 1075 < ssr_2"
  shows "Ftest_F k ssr_1 ssr_2 ndof_1 ndof_2 nbins = Inr (spec_F ssr_1 ssr_2 ndof_1 ndof_2 nbins)"
proof -
  from assms(3,5) have "0 < ssr_2"
    by (meson divide_pos_pos less_trans of_int_0_less_iff zero_less_numeral zero_less_power)
  with assms(1-5) Ftest_F_small_counts [of ndof_2 ndof_1 nbins ssr_1 ssr_2] show ?thesis
    by (cases k) (simp_all add: powi_1075)
qed

lemma spec_F_valid:
  assumes "0 < ndof_2 - ndof_1" and "ndof_2 - ndof_1 \<le> 2 ^ 53"
    and "0 < nbins - ndof_2" and "nbins - ndof_2 \<le> 2 ^ 53"
    and "is_double ssr_2" and "real_of_int (nbins - ndof_2) / 2 ^ 1075 < ssr_2"
  shows "\<exists>dd bv. 0 < dd \<and> 0 < bv \<and>
    (\<forall>ssr_1. spec_F ssr_1 ssr_2 ndof_1 ndof_2 nbins =
           ieee_div (ieee_div (round64 (ssr_1 - ssr_2)) (Num dd)) (Num bv))"
proof -
  define dd where "dd = real_of_int (ndof_2 - ndof_1)"
  define mm where "mm = real_of_int (nbins - ndof_2)"
  have D: "round64 (of_int (ndof_2 - ndof_1)) = Num dd"
    unfolding dd_def using assms(1,2) by (intro round64_int) simp
  have M: "round64 (of_int (nbins - ndof_2)) = Num mm"
    unfolding mm_def using assms(3,4) by (intro round64_int) simp
  from assms(1,3) have d0: "0 < dd" and m1: "1 \<le> mm" by (simp_all add: dd_def mm_def)
  from assms(6) have "mm * 2 powi (- 1075) < ssr_2"
    by (simp add: powi_1075 mm_def)
  with assms(5) obtain bv
    where b: "ieee_div (Num ssr_2) (Num mm) = Num bv" and bv: "0 < bv"
    using m1 by (auto elim: divisor_pos [of ssr_2 mm])
  have "spec_F ssr_1 ssr_2 ndof_1 ndof_2 nbins =
      ieee_div (ieee_div (round64 (ssr_1 - ssr_2)) (Num dd)) (Num bv)" for ssr_1
    unfolding spec_F_def D M b ieee_sub_Num by (rule refl)
  with d0 bv show ?thesis by blast
qed

lemma cdf22_value: "0 < dfn \<Longrightarrow> 0 < dfd \<Longrightarrow> cdf22 x dfn dfd = Inr (cdf22_value x)"
  by (simp add: cdf22_def)

lemma cdf22_value_mono:
  assumes "fl_le x y"
  shows "fl_le (cdf22_value x) (cdf22_value y)"
proof -
  have unit: "fl_le (Num 0) (round64 (v / (1 + v))) \<and> fl_le (round64 (v / (1 + v))) (Num 1)"
    if "0 < v" for v :: real
  proof -
    from that have "0 \<le> v / (1 + v)" and "v / (1 + v) \<le> 1" by simp_all
    then have "fl_le (round64 0) (round64 (v / (1 + v)))"
      and "fl_le (round64 (v / (1 + v))) (round64 1)"
      by (simp_all only: round64_mono)
    then show ?thesis by (simp add: round64_0 round64_1)
  qed
  have mono: "fl_le (round64 (u / (1 + u))) (round64 (v / (1 + v)))"
    if "0 < u" and "u \<le> v" for u v :: real
    using that by (intro round64_mono) (simp add: field_simps)
  from assms show ?thesis
    by (cases x; cases y)
      (auto simp add: cdf22_value_def fl_le_simps fl_le_NegInf fl_le_PosInf is_nan_simps
        fin_val_def unit mono)
qed

section \<open>The claims\<close>

text \<open>
  In the statements \<open>ssr_1\<close> is the residual sum of the simpler model and \<open>ssr_2\<close> that of the
  richer one, \<open>ndof_1\<close> and \<open>ndof_2\<close> are their numbers of parameters and \<open>nbins\<close> is the
  number of observations. A count is \<^emph>\<open>exact\<close> when it is at most \<open>2 ^ 53\<close>: it then converts
  to binary64 without rounding. The quotient \<open>ssr_2 / (nbins - ndof_2)\<close> rounds to a zero
  exactly when \<open>\<bar>ssr_2\<bar> \<le> \<bar>nbins - ndof_2\<bar> / 2 ^ 1075\<close>.
\<close>

subsection \<open>The formula\<close>

text \<open>
  C1. As stated, for every input with non-negative residual sums, \<open>ndof_1 < ndof_2\<close> and
  \<open>ndof_2 < nbins\<close> the function computes \<^verbatim>\<open>F\<close> and the confidence level of the
  specification's algorithm. This fails where the divisor \<open>ssr_2 / (nbins - ndof_2)\<close> is a
  zero (see the instance after the theorem). What holds, for \<open>0 \<le> ssr_2\<close> and exact counts
  with \<open>ndof_1 < ndof_2 < nbins\<close>:
  \<^item> with built-in floats the first statement raises \<^verbatim>\<open>ZeroDivisionError\<close> when
    \<open>ssr_2 \<le> (nbins - ndof_2) / 2 ^ 1075\<close>, the divisor being a zero then, and otherwise
    \<^verbatim>\<open>F\<close> is the specification's formula, each operation rounded to binary64;
  \<^item> with numpy scalars \<^verbatim>\<open>F\<close> is always that formula, evaluated with no trap;
  \<^item> whenever \<^verbatim>\<open>F\<close> has a value the call returns
    \<open>1 - cdf F (ndof_2 - ndof_1) (nbins - ndof_2)\<close>, the subtraction rounded, or raises
    what the evaluator raises.
\<close>

theorem Ftest_follows_algorithm:
  assumes "0 < ndof_2 - ndof_1" and "ndof_2 - ndof_1 \<le> 2 ^ 53"
    and "0 < nbins - ndof_2" and "nbins - ndof_2 \<le> 2 ^ 53"
    and "0 \<le> ssr_2"
  shows "Ftest_F Builtin ssr_1 ssr_2 ndof_1 ndof_2 nbins =
           (if ssr_2 \<le> real_of_int (nbins - ndof_2) / 2 ^ 1075 then Inl ZeroDivisionError
            else Inr (spec_F ssr_1 ssr_2 ndof_1 ndof_2 nbins)) \<and>
         Ftest_F Numpy ssr_1 ssr_2 ndof_1 ndof_2 nbins =
           Inr (spec_F ssr_1 ssr_2 ndof_1 ndof_2 nbins) \<and>
         returned (Ftest k cdf ssr_1 ssr_2 ndof_1 ndof_2 nbins verbose) =
           (case Ftest_F k ssr_1 ssr_2 ndof_1 ndof_2 nbins of
              Inl e \<Rightarrow> Inl e
            | Inr F \<Rightarrow>
                (case cdf F (ndof_2 - ndof_1) (nbins - ndof_2) of
                   Inl e \<Rightarrow> Inl e
                 | Inr c \<Rightarrow> Inr (PyFloat (ieee_sub (Num 1) c))))"
  using assms Ftest_F_small_counts [of ndof_2 ndof_1 nbins ssr_1 ssr_2]
  by (simp add: powi_1075 Ftest_returned)

theorem Ftest_follows_algorithm_witness:
  "Ftest_F Builtin 160 80 1 3 5 = Inr (Num 1) \<and>
   Ftest_F Numpy 160 80 1 3 5 = Inr (Num 1) \<and>
   returned (Ftest Builtin cdf22 160 80 1 3 5 False) = Inr (PyFloat (Num (1 / 2)))"
  using Ftest_follows_algorithm [of 3 1 5 80 160 Builtin cdf22 False]
  by (simp add: spec_F_def ieee_div_Num ieee_sub_Num round64_numeral round64_1 cdf22_def cdf22_value_def
      fl_defs one_minus_cases round_eval)

text \<open>
  \<^verbatim>\<open>Ftest(120.0, 0.0, 1, 3, 5)\<close> meets the stated preconditions; its right operand
  \<^verbatim>\<open>0.0/(5 - 3)\<close> is zero and the outer division raises: no \<^verbatim>\<open>F\<close> is computed.
\<close>

theorem Ftest_zero_rich_residual_no_F:
  "Ftest_F Builtin 120 0 1 3 5 = Inl ZeroDivisionError"
  by (simp add: all_eval)

subsection \<open>What is returned\<close>

text \<open>
  C2. As stated, the call returns the triple \<^verbatim>\<open>(F, confidence_level, decision)\<close>. The
  function ends with \<^verbatim>\<open>return CL\<close>: it returns one float (see the instance after the
  theorem). What holds, for exact counts with \<open>ndof_1 < ndof_2 < nbins\<close> and a finite
  binary64 \<open>ssr_2\<close> above \<open>(nbins - ndof_2) / 2 ^ 1075\<close>, so that the divisor is not a zero:
  \<^item> the call returns the confidence level of the specification's algorithm alone, as a
    float, or raises what the evaluator raises;
  \<^item> with \<^verbatim>\<open>verbose\<close> set it prints one line: the formatted confidence level, the text
    \<^verbatim>\<open>, additional parameter necessary:\<close> and \<^verbatim>\<open>YES\<close> where the specification decides
    "additional parameter justified", \<^verbatim>\<open>NO\<close> where it decides "simpler model
    sufficient"; with \<^verbatim>\<open>verbose\<close> unset it prints nothing;
  \<^item> with built-in floats no warning is issued; with numpy scalars the only warning that
    can be issued is that of an overflow.
\<close>

theorem Ftest_returns_confidence_level_only:
  assumes "0 < ndof_2 - ndof_1" and "ndof_2 - ndof_1 \<le> 2 ^ 53"
    and "0 < nbins - ndof_2" and "nbins - ndof_2 \<le> 2 ^ 53"
    and "real_of_int (nbins - ndof_2) / 2 ^ 1075 < ssr_2" and "is_double ssr_2"
  shows "returned (Ftest k cdf ssr_1 ssr_2 ndof_1 ndof_2 nbins verbose) =
           (case spec_confidence_level cdf ssr_1 ssr_2 ndof_1 ndof_2 nbins of
              Inl e \<Rightarrow> Inl e
            | Inr cl \<Rightarrow> Inr (PyFloat cl)) \<and>
         printed (Ftest k cdf ssr_1 ssr_2 ndof_1 ndof_2 nbins verbose) =
           (case spec_confidence_level cdf ssr_1 ssr_2 ndof_1 ndof_2 nbins of
              Inl e \<Rightarrow> []
            | Inr cl \<Rightarrow>
                if verbose
                then [[Fmt3 cl, Str '', additional parameter necessary:'',
                       Str (if spec_decision cl = ''additional parameter justified''
                            then ''YES'' else ''NO'')]]
                else []) \<and>
         warned (Ftest Builtin cdf ssr_1 ssr_2 ndof_1 ndof_2 nbins verbose) = [] \<and>
         list_all (\<lambda>w. w = Overflow)
           (warned (Ftest Numpy cdf ssr_1 ssr_2 ndof_1 ndof_2 nbins verbose))"
proof -
  have F: "Ftest_F k ssr_1 ssr_2 ndof_1 ndof_2 nbins =
      Inr (spec_F ssr_1 ssr_2 ndof_1 ndof_2 nbins)"
    using assms(1-5) by (rule Ftest_F_valid)
  have ret: "returned (Ftest k cdf ssr_1 ssr_2 ndof_1 ndof_2 nbins verbose) =
           (case spec_confidence_level cdf ssr_1 ssr_2 ndof_1 ndof_2 nbins of
              Inl e \<Rightarrow> Inl e
            | Inr cl \<Rightarrow> Inr (PyFloat cl))"
    by (simp add: Ftest_returned F spec_confidence_level_def split: sum.splits)
  have pr: "printed (Ftest k cdf ssr_1 ssr_2 ndof_1 ndof_2 nbins verbose) =
           (case spec_confidence_level cdf ssr_1 ssr_2 ndof_1 ndof_2 nbins of
              Inl e \<Rightarrow> []
            | Inr cl \<Rightarrow>
                if verbose
                then [[Fmt3 cl, Str '', additional parameter necessary:'',
                       Str (if spec_decision cl = ''additional parameter justified''
                            then ''YES'' else ''NO'')]]
                else [])"
    unfolding Ftest_printed ret by (simp add: spec_decision_def split: sum.splits)
  have quiet: "warned (Ftest Builtin cdf ssr_1 ssr_2 ndof_1 ndof_2 nbins verbose) = []"
    by (simp add: Ftest_warned Ftest_first_Builtin Let_def)
  have D: "round64 (of_int (ndof_2 - ndof_1)) = Num (of_int (ndof_2 - ndof_1))"
    using assms(1,2) by (intro round64_int) simp
  have M: "round64 (of_int (nbins - ndof_2)) = Num (of_int (nbins - ndof_2))"
    using assms(3,4) by (intro round64_int) simp
  from assms(3) have m1: "1 \<le> real_of_int (nbins - ndof_2)" by simp
  from assms(5) have "real_of_int (nbins - ndof_2) * 2 powi (- 1075) < ssr_2"
    by (simp add: powi_1075)
  with assms(6) obtain bv
    where b: "ieee_div (Num ssr_2) (Num (real_of_int (nbins - ndof_2))) = Num bv" and bv: "0 < bv"
    using m1 by (auto elim: divisor_pos [of ssr_2 "real_of_int (nbins - ndof_2)"])
  have "list_all (\<lambda>w. w = Overflow)
      (snd (Ftest_first Numpy ssr_1 ssr_2 ndof_1 ndof_2 nbins))"
    unfolding Ftest_first_Numpy D M Let_def b
    using assms(1,3) bv
    by (simp add: is_inf_def sub_flags_benign div_flags_benign is_zero_def)
  then have warn: "list_all (\<lambda>w. w = Overflow)
           (warned (Ftest Numpy cdf ssr_1 ssr_2 ndof_1 ndof_2 nbins verbose))"
    by (simp add: Ftest_warned)
  from ret pr quiet warn show ?thesis by blast
qed

theorem Ftest_returns_confidence_level_only_witness:
  "returned (Ftest Numpy cdf22 160 80 1 3 5 True) = Inr (PyFloat (Num (1 / 2))) \<and>
   printed (Ftest Numpy cdf22 160 80 1 3 5 True) =
     [[Fmt3 (Num (1 / 2)), Str '', additional parameter necessary:'', Str ''NO'']] \<and>
   warned (Ftest Builtin cdf22 160 80 1 3 5 True) = [] \<and>
   list_all (\<lambda>w. w = Overflow) (warned (Ftest Numpy cdf22 160 80 1 3 5 True))"
  using Ftest_returns_confidence_level_only [of 3 1 5 80 Numpy cdf22 160 True]
  by (simp add: spec_confidence_level_def spec_decision_def spec_F_def ieee_div_Num ieee_sub_Num
      round64_numeral round64_1 cdf22_def cdf22_value_def fl_defs one_minus_cases is_double_def fl_less_def
      round_eval)

text \<open>
  At \<^verbatim>\<open>Ftest(120.0, 80.0, 1, 3, 5)\<close> the statistic is \<open>1 / 2\<close>; the stand-in evaluator
  gives \<open>1 / 3\<close> rounded, and the call returns the float \<open>1 - 1 / 3\<close> rounded, where the
  specification's triple holds the statistic, that float and the decision.
\<close>

theorem Ftest_result_is_not_the_triple:
  "returned (Ftest Builtin cdf22 120 80 1 3 5 False) =
     Inr (PyFloat (Num (3002399751580331 / 4503599627370496))) \<and>
   spec_compare cdf22 120 80 1 3 5 =
     Inr (PyTuple [PyFloat (Num (1 / 2)), PyFloat (Num (3002399751580331 / 4503599627370496)),
                   PyStr ''simpler model sufficient'']) \<and>
   returned (Ftest Builtin cdf22 120 80 1 3 5 False) \<noteq> spec_compare cdf22 120 80 1 3 5"
  by (simp add: all_eval)

subsection \<open>Invalid nesting\<close>

text \<open>
  C3. As stated, every input with \<open>ndof_2 \<le> ndof_1\<close> fails with an invalid-input error of
  the function's own precondition check. The function checks nothing (see the instances
  after the theorem). What holds, for \<open>ndof_2 \<le> ndof_1\<close> with an exact difference, an exact
  \<open>nbins - ndof_2 > 0\<close> and \<open>ssr_2\<close> above \<open>(nbins - ndof_2) / 2 ^ 1075\<close>:
  \<^item> with built-in floats the call raises \<^verbatim>\<open>ZeroDivisionError\<close>, from its first
    division, when \<open>ndof_2 = ndof_1\<close>; when \<open>ndof_2 < ndof_1\<close> it goes on to the evaluator
    and returns \<open>1 - cdf F (ndof_2 - ndof_1) (nbins - ndof_2)\<close>, \<^verbatim>\<open>F\<close> being the formula
    and the first degree of freedom negative, or raises what the evaluator raises;
  \<^item> with numpy scalars it always goes on to the evaluator, in the same way.
\<close>

theorem Ftest_invalid_nesting_unchecked:
  assumes "ndof_2 \<le> ndof_1" and "ndof_1 - ndof_2 \<le> 2 ^ 53"
    and "0 < nbins - ndof_2" and "nbins - ndof_2 \<le> 2 ^ 53"
    and "real_of_int (nbins - ndof_2) / 2 ^ 1075 < ssr_2"
  shows "returned (Ftest Builtin cdf ssr_1 ssr_2 ndof_1 ndof_2 nbins verbose) =
           (if ndof_2 = ndof_1 then Inl ZeroDivisionError
            else (case cdf (spec_F ssr_1 ssr_2 ndof_1 ndof_2 nbins)
                         (ndof_2 - ndof_1) (nbins - ndof_2) of
                    Inl e \<Rightarrow> Inl e
                  | Inr c \<Rightarrow> Inr (PyFloat (ieee_sub (Num 1) c)))) \<and>
         returned (Ftest Numpy cdf ssr_1 ssr_2 ndof_1 ndof_2 nbins verbose) =
           (case cdf (spec_F ssr_1 ssr_2 ndof_1 ndof_2 nbins)
                   (ndof_2 - ndof_1) (nbins - ndof_2) of
              Inl e \<Rightarrow> Inl e
            | Inr c \<Rightarrow> Inr (PyFloat (ieee_sub (Num 1) c)))"
proof -
  from assms(3,5) have "0 < ssr_2"
    by (meson divide_pos_pos less_trans of_int_0_less_iff zero_less_numeral zero_less_power)
  with assms Ftest_F_small_counts [of ndof_2 ndof_1 nbins ssr_1 ssr_2] show ?thesis
    by (simp add: powi_1075 Ftest_returned)
qed

theorem Ftest_invalid_nesting_unchecked_witness:
  "returned (Ftest Builtin cdf22 120 80 3 1 5 False) = Inr (PyFloat NaN) \<and>
   returned (Ftest Numpy cdf22 120 80 3 1 5 False) = Inr (PyFloat NaN)"
  using Ftest_invalid_nesting_unchecked [of 1 3 5 80 cdf22 120 False]
  by (simp add: cdf22_def one_minus_cases)

text \<open>
  \<^verbatim>\<open>Ftest(120.0, 80.0, 2, 1, 100)\<close> with built-in floats returns a NaN, with no error,
  no warning and no output; \<^verbatim>\<open>Ftest(120.0, 80.0, 1, 1, 100)\<close> with numpy scalars returns
  a NaN as well, after the warning of a division by zero.
\<close>

theorem Ftest_invalid_nesting_returns:
  "Ftest Builtin cdf22 120 80 2 1 100 False = (Inr (PyFloat NaN), [], []) \<and>
   Ftest Numpy cdf22 120 80 1 1 100 False = (Inr (PyFloat NaN), [DivideByZero], [])"
  by (simp add: all_eval)

subsection \<open>Too few observations\<close>

text \<open>
  C4. As stated, every input with \<open>nbins \<le> ndof_2\<close> raises an insufficient-data error. The
  function checks nothing (see the instance after the theorem). What holds, for
  \<open>nbins \<le> ndof_2\<close> with an exact difference, an exact \<open>ndof_2 - ndof_1 > 0\<close> and a
  positive \<open>ssr_2\<close> above \<open>(ndof_2 - nbins) / 2 ^ 1075\<close>:
  \<^item> with built-in floats the call raises \<^verbatim>\<open>ZeroDivisionError\<close>, from its second
    division, when \<open>nbins = ndof_2\<close>; when \<open>nbins < ndof_2\<close> it goes on to the evaluator and
    returns \<open>1 - cdf F (ndof_2 - ndof_1) (nbins - ndof_2)\<close>, \<^verbatim>\<open>F\<close> being the formula and
    the second degree of freedom negative, or raises what the evaluator raises;
  \<^item> with numpy scalars it always goes on to the evaluator, in the same way.
\<close>

theorem Ftest_few_observations_unchecked:
  assumes "nbins \<le> ndof_2" and "ndof_2 - nbins \<le> 2 ^ 53"
    and "0 < ndof_2 - ndof_1" and "ndof_2 - ndof_1 \<le> 2 ^ 53"
    and "0 < ssr_2" and "real_of_int (ndof_2 - nbins) / 2 ^ 1075 < ssr_2"
  shows "returned (Ftest Builtin cdf ssr_1 ssr_2 ndof_1 ndof_2 nbins verbose) =
           (if nbins = ndof_2 then Inl ZeroDivisionError
            else (case cdf (spec_F ssr_1 ssr_2 ndof_1 ndof_2 nbins)
                         (ndof_2 - ndof_1) (nbins - ndof_2) of
                    Inl e \<Rightarrow> Inl e
                  | Inr c \<Rightarrow> Inr (PyFloat (ieee_sub (Num 1) c)))) \<and>
         returned (Ftest Numpy cdf ssr_1 ssr_2 ndof_1 ndof_2 nbins verbose) =
           (case cdf (spec_F ssr_1 ssr_2 ndof_1 ndof_2 nbins)
                   (ndof_2 - ndof_1) (nbins - ndof_2) of
              Inl e \<Rightarrow> Inl e
            | Inr c \<Rightarrow> Inr (PyFloat (ieee_sub (Num 1) c)))"
proof -
  from assms(1) have "\<bar>real_of_int (nbins - ndof_2)\<bar> = real_of_int (ndof_2 - nbins)"
    by simp
  with assms Ftest_F_small_counts [of ndof_2 ndof_1 nbins ssr_1 ssr_2] show ?thesis
    by (simp add: powi_1075 Ftest_returned)
qed

theorem Ftest_few_observations_unchecked_witness:
  "returned (Ftest Builtin cdf22 120 80 1 3 3 False) = Inl ZeroDivisionError \<and>
   returned (Ftest Numpy cdf22 120 80 1 3 3 False) = Inr (PyFloat NaN)"
  using Ftest_few_observations_unchecked [of 3 3 1 80 cdf22 120 False]
  by (simp add: cdf22_def one_minus_cases)

text \<open>
  \<^verbatim>\<open>Ftest(120.0, 80.0, 1, 2, 1)\<close> with built-in floats returns a NaN, with no error, no
  warning and no output.
\<close>

theorem Ftest_few_observations_returns:
  "Ftest Builtin cdf22 120 80 1 2 1 False = (Inr (PyFloat NaN), [], [])"
  by (simp add: all_eval)

subsection \<open>A richer model that fits exactly\<close>




subsection \<open>Equal residual sums\<close>

text \<open>
  C6. As stated, for every valid input with \<open>ssr_1 = ssr_2\<close> the statistic is 0 and the
  confidence level is 1. This fails where the divisor is a zero (see the instance after the
  theorem). What holds, for exact counts with \<open>ndof_1 < ndof_2 < nbins\<close> and a finite
  binary64 \<open>ssr_1 = ssr_2\<close> above \<open>(nbins - ndof_2) / 2 ^ 1075\<close>: with either kind of
  number \<^verbatim>\<open>F\<close> is the positive zero, no warning is issued, and for an evaluator that is
  0 at 0 the call returns 1 and, with \<^verbatim>\<open>verbose\<close> set, prints the line with \<^verbatim>\<open>NO\<close>.
\<close>

theorem Ftest_equal_residuals:
  assumes "0 < ndof_2 - ndof_1" and "ndof_2 - ndof_1 \<le> 2 ^ 53"
    and "0 < nbins - ndof_2" and "nbins - ndof_2 \<le> 2 ^ 53"
    and "is_double ssr" and "real_of_int (nbins - ndof_2) / 2 ^ 1075 < ssr"
    and "cdf (Num 0) (ndof_2 - ndof_1) (nbins - ndof_2) = Inr (Num 0)"
  shows "Ftest_F k ssr ssr ndof_1 ndof_2 nbins = Inr (Num 0) \<and>
         Ftest k cdf ssr ssr ndof_1 ndof_2 nbins verbose =
           (Inr (PyFloat (Num 1)), [],
            if verbose
            then [[Fmt3 (Num 1), Str '', additional parameter necessary:'', Str ''NO'']]
            else [])"
proof -
  define dd where "dd = real_of_int (ndof_2 - ndof_1)"
  define mm where "mm = real_of_int (nbins - ndof_2)"
  have D: "round64 (of_int (ndof_2 - ndof_1)) = Num dd"
    unfolding dd_def using assms(1,2) by (intro round64_int) simp
  have M: "round64 (of_int (nbins - ndof_2)) = Num mm"
    unfolding mm_def using assms(3,4) by (intro round64_int) simp
  from assms(1,3) have d0: "0 < dd" and m1: "1 \<le> mm" by (simp_all add: dd_def mm_def)
  from assms(6) have "mm * 2 powi (- 1075) < ssr"
    by (simp add: powi_1075 mm_def)
  with assms(5) obtain bv
    where b: "ieee_div (Num ssr) (Num mm) = Num bv" and bv: "0 < bv"
    using m1 by (auto elim: divisor_pos [of ssr mm])
  have diff: "ieee_sub (Num ssr) (Num ssr) = Num 0"
    by (simp add: ieee_sub_Num round64_0)
  have a: "ieee_div (Num 0) (Num dd) = Num 0"
    using d0 by (simp add: ieee_div_Num zero_of_def)
  have F: "ieee_div (Num 0) (Num bv) = Num 0"
    using bv by (simp add: ieee_div_Num zero_of_def)
  have first: "Ftest_first k ssr ssr ndof_1 ndof_2 nbins = (Inr (Num 0), [])"
  proof (cases k)
    case Builtin
    show ?thesis
      unfolding Builtin Ftest_first_Builtin D M Let_def diff a b F
      using d0 m1 bv by (simp add: is_inf_def is_zero_def)
  next
    case Numpy
    show ?thesis
      unfolding Numpy Ftest_first_Numpy D M Let_def diff a b F
      using d0 m1 bv
      by (simp add: is_inf_def is_zero_def is_nan_def sub_flags_def div_flags_def diff a b F)
  qed
  have no: "\<not> fl_less (Num 1) (round64 (1 / 10))"
    by (simp add: tenth fl_less_def fl_defs)
  from first assms(7) no show ?thesis
    by (simp add: Ftest_def Ftest_F_def Ftest_CL_def diag_line_def one_minus_cases round64_1)
qed

theorem Ftest_equal_residuals_witness:
  "Ftest_F Builtin 80 80 1 3 5 = Inr (Num 0) \<and>
   Ftest Builtin cdf22 80 80 1 3 5 False = (Inr (PyFloat (Num 1)), [], [])"
proof -
  have "cdf22 (Num 0) (3 - 1) (5 - 3) = Inr (Num 0)"
    by (simp add: cdf22_def cdf22_value_def fl_defs)
  from Ftest_equal_residuals [of 3 1 5 80 cdf22 Builtin False, OF _ _ _ _ _ _ this]
  show ?thesis
    by (simp add: is_double_def round64_numeral)
qed

text \<open>
  \<^verbatim>\<open>Ftest(0.0, 0.0, 1, 3, 5)\<close> divides a zero by a zero: \<^verbatim>\<open>ZeroDivisionError\<close> with
  built-in floats, a NaN for \<^verbatim>\<open>F\<close> with numpy scalars.
\<close>

theorem Ftest_equal_zero_residuals:
  "Ftest_F Builtin 0 0 1 3 5 = Inl ZeroDivisionError \<and> Ftest_F Numpy 0 0 1 3 5 = Inr NaN"
  by (simp add: all_eval)

subsection \<open>Monotonicity\<close>

text \<open>
  C7. As stated, for all valid inputs the confidence level does not increase when
  \<open>ssr_1 - ssr_2\<close> increases, the other inputs fixed. This fails where the divisor is a
  zero (see the instance after the theorem). What holds, for exact counts with
  \<open>ndof_1 < ndof_2 < nbins\<close>, a finite binary64 \<open>ssr_2\<close> above
  \<open>(nbins - ndof_2) / 2 ^ 1075\<close> and an evaluator that at these degrees of freedom answers
  every argument but a NaN with a value \<open>c x\<close> that does not decrease in \<open>x\<close>: for
  \<open>ssr_1 \<le> ssr_1'\<close> both calls return, the values are
  \<open>1 - c F\<close> and \<open>1 - c F'\<close> for the two statistics, and the second is at most the first in
  the order of \<^verbatim>\<open><=\<close> on floats.
\<close>

theorem Ftest_confidence_antitone:
  assumes "0 < ndof_2 - ndof_1" and "ndof_2 - ndof_1 \<le> 2 ^ 53"
    and "0 < nbins - ndof_2" and "nbins - ndof_2 \<le> 2 ^ 53"
    and "is_double ssr_2" and "real_of_int (nbins - ndof_2) / 2 ^ 1075 < ssr_2"
    and "ssr_1 \<le> ssr_1'"
    and "\<forall>x. \<not> is_nan x \<longrightarrow> cdf x (ndof_2 - ndof_1) (nbins - ndof_2) = Inr (c x)"
    and "\<forall>x y. fl_le x y \<longrightarrow> fl_le (c x) (c y)"
  shows "returned (Ftest k cdf ssr_1 ssr_2 ndof_1 ndof_2 nbins verbose) =
           Inr (PyFloat (ieee_sub (Num 1) (c (spec_F ssr_1 ssr_2 ndof_1 ndof_2 nbins)))) \<and>
         returned (Ftest k cdf ssr_1' ssr_2 ndof_1 ndof_2 nbins verbose) =
           Inr (PyFloat (ieee_sub (Num 1) (c (spec_F ssr_1' ssr_2 ndof_1 ndof_2 nbins)))) \<and>
         fl_le (ieee_sub (Num 1) (c (spec_F ssr_1' ssr_2 ndof_1 ndof_2 nbins)))
               (ieee_sub (Num 1) (c (spec_F ssr_1 ssr_2 ndof_1 ndof_2 nbins)))"
proof -
  from spec_F_valid [OF assms(1-6)] obtain dd bv where dd: "0 < dd" and bv: "0 < bv"
    and F: "\<And>s. spec_F s ssr_2 ndof_1 ndof_2 nbins =
           ieee_div (ieee_div (round64 (s - ssr_2)) (Num dd)) (Num bv)"
    by blast
  from assms(7) have "fl_le (round64 (ssr_1 - ssr_2)) (round64 (ssr_1' - ssr_2))"
    by (intro round64_mono) simp
  then have "fl_le (ieee_div (round64 (ssr_1 - ssr_2)) (Num dd))
      (ieee_div (round64 (ssr_1' - ssr_2)) (Num dd))"
    using dd by (rule div_mono_pos)
  then have le: "fl_le (spec_F ssr_1 ssr_2 ndof_1 ndof_2 nbins)
      (spec_F ssr_1' ssr_2 ndof_1 ndof_2 nbins)"
    unfolding F using bv by (rule div_mono_pos)
  then have nn: "\<not> is_nan (spec_F ssr_1 ssr_2 ndof_1 ndof_2 nbins)"
      "\<not> is_nan (spec_F ssr_1' ssr_2 ndof_1 ndof_2 nbins)"
    by (simp_all add: fl_le_not_nan)
  from le assms(9) have "fl_le (c (spec_F ssr_1 ssr_2 ndof_1 ndof_2 nbins))
      (c (spec_F ssr_1' ssr_2 ndof_1 ndof_2 nbins))"
    by blast
  then have order: "fl_le (ieee_sub (Num 1) (c (spec_F ssr_1' ssr_2 ndof_1 ndof_2 nbins)))
               (ieee_sub (Num 1) (c (spec_F ssr_1 ssr_2 ndof_1 ndof_2 nbins)))"
    by (rule one_minus_antitone)
  have "returned (Ftest k cdf s ssr_2 ndof_1 ndof_2 nbins verbose) =
      Inr (PyFloat (ieee_sub (Num 1) (c (spec_F s ssr_2 ndof_1 ndof_2 nbins))))"
    if "\<not> is_nan (spec_F s ssr_2 ndof_1 ndof_2 nbins)" for s
    using that assms(8) Ftest_F_valid [OF assms(1-4,6), of k s]
    by (simp add: Ftest_returned)
  with nn order show ?thesis by simp
qed

theorem Ftest_confidence_antitone_witness:
  "returned (Ftest Builtin cdf22 80 80 1 3 5 False) = Inr (PyFloat (Num 1)) \<and>
   returned (Ftest Builtin cdf22 160 80 1 3 5 False) = Inr (PyFloat (Num (1 / 2))) \<and>
   fl_le (Num (1 / 2)) (Num 1)"
proof -
  have c: "\<forall>x. \<not> is_nan x \<longrightarrow> cdf22 x (3 - 1) (5 - 3) = Inr (cdf22_value x)"
    by (simp add: cdf22_value)
  have m: "\<forall>x y. fl_le x y \<longrightarrow> fl_le (cdf22_value x) (cdf22_value y)"
    by (simp add: cdf22_value_mono)
  from Ftest_confidence_antitone [of 3 1 5 80 80 160 cdf22 cdf22_value Builtin False,
      OF _ _ _ _ _ _ _ c m]
  show ?thesis
    by (simp add: is_double_def round64_numeral spec_F_def ieee_div_Num ieee_sub_Num
        round64_0 round64_1 cdf22_value_def fl_defs one_minus_cases round_eval)
qed

text \<open>
  With \<open>ssr_2 = 0\<close> and numpy scalars the call returns a NaN at \<open>ssr_1 = 0\<close> and 0 at
  \<open>ssr_1 = 1\<close>: the two are not ordered. With built-in floats both calls raise.
\<close>

theorem Ftest_confidence_nan_then_zero:
  "returned (Ftest Numpy cdf22 0 0 1 3 5 False) = Inr (PyFloat NaN) \<and>
   returned (Ftest Numpy cdf22 1 0 1 3 5 False) = Inr (PyFloat (Num 0)) \<and>
   \<not> fl_le (Num 0) NaN \<and>
   returned (Ftest Builtin cdf22 0 0 1 3 5 False) = Inl ZeroDivisionError \<and>
   returned (Ftest Builtin cdf22 1 0 1 3 5 False) = Inl ZeroDivisionError"
  by (simp add: all_eval)

subsection \<open>A negative statistic\<close>

text \<open>
  C8. As stated, every input with \<open>ssr_1 < ssr_2\<close> and valid counts returns the confidence
  level 1 and raises no error. This fails where the divisor is a zero (see the instance
  after the theorem). What holds, for \<open>ssr_1 < ssr_2\<close>, exact counts with
  \<open>ndof_1 < ndof_2 < nbins\<close>, a finite binary64 \<open>ssr_2\<close> above
  \<open>(nbins - ndof_2) / 2 ^ 1075\<close> and an evaluator that is 0 at every argument with the sign
  bit set: with either kind of number \<^verbatim>\<open>F\<close> is the formula and has its sign bit set (it
  is negative, or a negative zero when the quotient underflows), the call returns 1 and,
  with \<^verbatim>\<open>verbose\<close> set, prints the line with \<^verbatim>\<open>NO\<close>.
\<close>

theorem Ftest_negative_F:
  assumes "0 < ndof_2 - ndof_1" and "ndof_2 - ndof_1 \<le> 2 ^ 53"
    and "0 < nbins - ndof_2" and "nbins - ndof_2 \<le> 2 ^ 53"
    and "is_double ssr_2" and "real_of_int (nbins - ndof_2) / 2 ^ 1075 < ssr_2"
    and "ssr_1 < ssr_2"
    and "\<forall>x. signbit x \<longrightarrow> cdf x (ndof_2 - ndof_1) (nbins - ndof_2) = Inr (Num 0)"
  shows "Ftest_F k ssr_1 ssr_2 ndof_1 ndof_2 nbins =
           Inr (spec_F ssr_1 ssr_2 ndof_1 ndof_2 nbins) \<and>
         signbit (spec_F ssr_1 ssr_2 ndof_1 ndof_2 nbins) \<and>
         returned (Ftest k cdf ssr_1 ssr_2 ndof_1 ndof_2 nbins verbose) =
           Inr (PyFloat (Num 1)) \<and>
         printed (Ftest k cdf ssr_1 ssr_2 ndof_1 ndof_2 nbins verbose) =
           (if verbose
            then [[Fmt3 (Num 1), Str '', additional parameter necessary:'', Str ''NO'']]
            else [])"
proof -
  from spec_F_valid [OF assms(1-6)] obtain dd bv where dd: "0 < dd" and bv: "0 < bv"
    and F: "\<And>s. spec_F s ssr_2 ndof_1 ndof_2 nbins =
           ieee_div (ieee_div (round64 (s - ssr_2)) (Num dd)) (Num bv)"
    by blast
  from assms(7) have "signbit (round64 (ssr_1 - ssr_2))"
    by (simp add: round64_signbit)
  with dd bv have sign: "signbit (spec_F ssr_1 ssr_2 ndof_1 ndof_2 nbins)"
    by (simp add: F div_pos_signbit)
  have run: "Ftest_F k ssr_1 ssr_2 ndof_1 ndof_2 nbins =
      Inr (spec_F ssr_1 ssr_2 ndof_1 ndof_2 nbins)"
    using assms(1-4,6) by (rule Ftest_F_valid)
  from sign assms(8) have ret: "returned (Ftest k cdf ssr_1 ssr_2 ndof_1 ndof_2 nbins verbose) =
      Inr (PyFloat (Num 1))"
    by (simp add: Ftest_returned run one_minus_cases round64_1)
  have no: "\<not> fl_less (Num 1) (round64 (1 / 10))"
    by (simp add: tenth fl_less_def fl_defs)
  have "printed (Ftest k cdf ssr_1 ssr_2 ndof_1 ndof_2 nbins verbose) =
           (if verbose
            then [[Fmt3 (Num 1), Str '', additional parameter necessary:'', Str ''NO'']]
            else [])"
    unfolding Ftest_printed ret using no by simp
  with run sign ret show ?thesis by simp
qed

theorem Ftest_negative_F_witness:
  "Ftest_F Builtin 80 160 1 3 5 = Inr (Num (- (1 / 2))) \<and>
   signbit (Num (- (1 / 2))) \<and>
   returned (Ftest Builtin cdf22 80 160 1 3 5 True) = Inr (PyFloat (Num 1)) \<and>
   printed (Ftest Builtin cdf22 80 160 1 3 5 True) =
     [[Fmt3 (Num 1), Str '', additional parameter necessary:'', Str ''NO'']]"
proof -
  have "\<forall>x. signbit x \<longrightarrow> cdf22 x (3 - 1) (5 - 3) = Inr (Num 0)"
  proof (intro allI impI)
    fix x assume "signbit x"
    then show "cdf22 x (3 - 1) (5 - 3) = Inr (Num 0)"
      by (cases x) (simp_all add: cdf22_def cdf22_value_def fl_defs)
  qed
  from Ftest_negative_F [of 3 1 5 160 80 cdf22 Builtin True, OF _ _ _ _ _ _ _ this]
  show ?thesis
    by (simp add: is_double_def round64_numeral spec_F_def ieee_div_Num ieee_sub_Num
        round64_neg_numeral fl_defs round_eval)
qed

text \<open>
  \<^verbatim>\<open>Ftest(0.0, 5e-324, 1, 3, 5)\<close> has \<open>ssr_1 < ssr_2\<close> and valid counts; \<^verbatim>\<open>5e-324/2\<close> is
  \<^verbatim>\<open>0.0\<close> in binary64 and with built-in floats the outer division raises
  \<^verbatim>\<open>ZeroDivisionError\<close>.
\<close>

theorem Ftest_negative_F_underflow:
  "Ftest Builtin cdf22 0 (1 / 2 ^ 1074) 1 3 5 False = (Inl ZeroDivisionError, [], [])"
  by (simp add: all_eval)

subsection \<open>The scenario\<close>

text \<open>
  C9. For \<^verbatim>\<open>ssr_1 = 120.0, ssr_2 = 80.0, ndof_1 = 1, ndof_2 = 2, nbins = 100\<close> the
  statistic \<^verbatim>\<open>F\<close> is \<open>((120 - 80) / (2 - 1)) / (80 / (100 - 2))\<close>, which is 49 as an exact
  rational, with either kind of number: the binary64 quotient \<open>80 / 98\<close> is rounded, and
  \<open>40\<close> divided by it rounds to 49 exactly.
\<close>

theorem Ftest_F_scenario: "Ftest_F k 120 80 1 2 100 = Inr (Num 49)"
  by (cases k) (simp_all add: all_eval)

subsection \<open>The flag\<close>

text \<open>
  C10. As stated, the value returned does not depend on \<^verbatim>\<open>verbose\<close>, which only decides
  whether the diagnostic line with the decision is printed, so that a call with the
  default performs no output at all. The last part fails with numpy scalars, whose
  warnings do not depend on the flag (see the instance after the theorem). What holds, for
  every input, evaluator and kind of number:
  \<^item> the call returns \<open>1 - cdf F (ndof_2 - ndof_1) (nbins - ndof_2)\<close> or raises the exception
    of the first statement or of the evaluator, whatever the flag;
  \<^item> with \<^verbatim>\<open>verbose\<close> set a call that returns prints one line: the formatted value it
    returns, the text \<^verbatim>\<open>, additional parameter necessary:\<close> and \<^verbatim>\<open>YES\<close> when that
    value is below the float \<^verbatim>\<open>0.10\<close>, \<^verbatim>\<open>NO\<close> otherwise; a call that raises prints
    nothing;
  \<^item> the two calls return the same thing and issue the same warnings;
  \<^item> a call with the default is the call with \<^verbatim>\<open>verbose\<close> unset, and prints nothing;
  \<^item> with built-in floats no warning is issued.
\<close>

theorem Ftest_verbose_only_prints:
  "returned (Ftest k cdf ssr_1 ssr_2 ndof_1 ndof_2 nbins verbose) =
     (case Ftest_F k ssr_1 ssr_2 ndof_1 ndof_2 nbins of
        Inl e \<Rightarrow> Inl e
      | Inr F \<Rightarrow>
          (case cdf F (ndof_2 - ndof_1) (nbins - ndof_2) of
             Inl e \<Rightarrow> Inl e
           | Inr c \<Rightarrow> Inr (PyFloat (ieee_sub (Num 1) c)))) \<and>
   printed (Ftest k cdf ssr_1 ssr_2 ndof_1 ndof_2 nbins verbose) =
     (case Ftest_F k ssr_1 ssr_2 ndof_1 ndof_2 nbins of
        Inl e \<Rightarrow> []
      | Inr F \<Rightarrow>
          (case cdf F (ndof_2 - ndof_1) (nbins - ndof_2) of
             Inl e \<Rightarrow> []
           | Inr c \<Rightarrow>
               if verbose
               then [[Fmt3 (ieee_sub (Num 1) c), Str '', additional parameter necessary:'',
                      Str (if fl_less (ieee_sub (Num 1) c) (round64 (1 / 10))
                           then ''YES'' else ''NO'')]]
               else [])) \<and>
   returned (Ftest k cdf ssr_1 ssr_2 ndof_1 ndof_2 nbins True) =
     returned (Ftest k cdf ssr_1 ssr_2 ndof_1 ndof_2 nbins False) \<and>
   warned (Ftest k cdf ssr_1 ssr_2 ndof_1 ndof_2 nbins True) =
     warned (Ftest k cdf ssr_1 ssr_2 ndof_1 ndof_2 nbins False) \<and>
   Ftest_default k cdf ssr_1 ssr_2 ndof_1 ndof_2 nbins =
     Ftest k cdf ssr_1 ssr_2 ndof_1 ndof_2 nbins False \<and>
   returned (Ftest_default k cdf ssr_1 ssr_2 ndof_1 ndof_2 nbins) =
     returned (Ftest k cdf ssr_1 ssr_2 ndof_1 ndof_2 nbins True) \<and>
   printed (Ftest_default k cdf ssr_1 ssr_2 ndof_1 ndof_2 nbins) = [] \<and>
   warned (Ftest Builtin cdf ssr_1 ssr_2 ndof_1 ndof_2 nbins verbose) = []"
proof -
  have pr: "printed (Ftest k cdf ssr_1 ssr_2 ndof_1 ndof_2 nbins v) =
     (case Ftest_F k ssr_1 ssr_2 ndof_1 ndof_2 nbins of
        Inl e \<Rightarrow> []
      | Inr F \<Rightarrow>
          (case cdf F (ndof_2 - ndof_1) (nbins - ndof_2) of
             Inl e \<Rightarrow> []
           | Inr c \<Rightarrow>
               if v
               then [[Fmt3 (ieee_sub (Num 1) c), Str '', additional parameter necessary:'',
                      Str (if fl_less (ieee_sub (Num 1) c) (round64 (1 / 10))
                           then ''YES'' else ''NO'')]]
               else []))" for v
    unfolding Ftest_printed Ftest_returned by (simp split: sum.splits)
  have quiet: "warned (Ftest Builtin cdf ssr_1 ssr_2 ndof_1 ndof_2 nbins verbose) = []"
    by (simp add: Ftest_warned Ftest_first_Builtin Let_def)
  have "printed (Ftest k cdf ssr_1 ssr_2 ndof_1 ndof_2 nbins False) = []"
    unfolding pr by (simp split: sum.splits)
  with pr [of verbose] quiet show ?thesis
    by (simp add: Ftest_returned Ftest_warned Ftest_default_def)
qed

text \<open>
  \<^verbatim>\<open>Ftest(120.0, 0.0, 1, 3, 5)\<close> with numpy scalars and the default flag prints nothing of
  its own, and numpy issues the warning of a division by zero.
\<close>

theorem Ftest_default_call_warns:
  "warned (Ftest_default Numpy cdf22 120 0 1 3 5) = [DivideByZero] \<and>
   printed (Ftest_default Numpy cdf22 120 0 1 3 5) = []"
  by (simp add: all_eval)

end
